theory Spec2Isabelle
  imports Main "HOL-Library.Sublist"
begin

section \<open>Configuration lookup and command assembly of the Credo editor extension\<close>

text \<open>
  This theory embeds \<^verbatim>\<open>src/utilities.ts\<close>: the upward directory search
  \<^verbatim>\<open>findUp\<close>, the resolution of the Credo configuration file
  (\<^verbatim>\<open>getProjectFolder\<close>, \<^verbatim>\<open>getCredoConfigFilePath\<close>), the assembly of the
  command line (\<^verbatim>\<open>getCommandArguments\<close>) and of the process environment
  (\<^verbatim>\<open>getCommandEnvironment\<close>).

  Everything the functions read from outside is a field of the record \<open>World\<close>: the
  answers of \<^verbatim>\<open>fs.existsSync\<close>, the editor's workspace folders, the extension
  settings and \<^verbatim>\<open>process.env\<close>. The functions of Node's \<^verbatim>\<open>path\<close> module are
  modelled for a POSIX platform (\<^verbatim>\<open>path.sep\<close> is \<^verbatim>\<open>/\<close>, \<^verbatim>\<open>path.delimiter\<close> is
  \<^verbatim>\<open>:\<close>). Log calls are collected as a list of entries returned beside the result.
  A call that never returns (in JavaScript: a recursion that exhausts the stack) is the
  value \<open>None\<close> of the outer \<open>option\<close>.
\<close>

subsection \<open>JavaScript values\<close>

text \<open>
  A \<^verbatim>\<open>string | undefined | null\<close> is a \<open>string option\<close>. Such a value is truthy
  when it is a non-empty string; \<^verbatim>\<open>a || b\<close> yields \<open>a\<close> when \<open>a\<close> is truthy and \<open>b\<close>
  otherwise; a template literal prints \<^verbatim>\<open>undefined\<close> for an absent value.
\<close>

definition truthy :: "string option \<Rightarrow> bool" where
  "truthy v = (case v of None \<Rightarrow> False | Some s \<Rightarrow> s \<noteq> [])"

definition js_or :: "string option \<Rightarrow> string option \<Rightarrow> string option" where
  "js_or a b = (if truthy a then a else b)"

definition js_or_str :: "string option \<Rightarrow> string \<Rightarrow> string" where
  "js_or_str a b = (case a of None \<Rightarrow> b | Some s \<Rightarrow> if s \<noteq> [] then s else b)"

definition template :: "string option \<Rightarrow> string" where
  "template v = (case v of None \<Rightarrow> ''undefined'' | Some s \<Rightarrow> s)"

text \<open>\<^verbatim>\<open>Array.prototype.join\<close> on an array of strings.\<close>

fun joinWith :: "string \<Rightarrow> string list \<Rightarrow> string" where
  "joinWith s [] = []"
| "joinWith s [x] = x"
| "joinWith s (x # y # ys) = x @ s @ joinWith s (y # ys)"

text \<open>
  \<^verbatim>\<open>String.prototype.replace\<close> with a string pattern: only the leftmost occurrence of
  the pattern is replaced, and a string without the pattern is returned as it is.
\<close>

fun replace :: "string \<Rightarrow> string \<Rightarrow> string \<Rightarrow> string" where
  "replace [] pat rep = (if pat = [] then rep else [])"
| "replace (c # cs) pat rep =
     (if prefix pat (c # cs) then rep @ drop (length pat) (c # cs)
      else c # replace cs pat rep)"

subsection \<open>Node's path module on POSIX\<close>

definition sep :: string where
  "sep = ''/''"

definition delimiter :: string where
  "delimiter = '':''"

definition isAbsolute :: "string \<Rightarrow> bool" where
  "isAbsolute p = (p \<noteq> [] \<and> hd p = CHR ''/'')"

text \<open>
  \<^verbatim>\<open>path.dirname\<close> scans from the last character down to index 1: it skips trailing
  separators, then the last path segment, and cuts the path at the separator found
  there. Without such a separator the result is \<^verbatim>\<open>/\<close> for a rooted path and
  \<^verbatim>\<open>.\<close> otherwise.
\<close>

definition dirname :: "string \<Rightarrow> string" where
  "dirname p =
     (if p = [] then ''.''
      else
        let hasRoot = (hd p = CHR ''/'');
            r1 = dropWhile (\<lambda>c. c = CHR ''/'') (rev (tl p));
            r2 = dropWhile (\<lambda>c. c \<noteq> CHR ''/'') r1
        in if r2 = [] then (if hasRoot then ''/'' else ''.'')
           else if hasRoot \<and> length r2 = 1 then ''//''
           else take (length r2) p)"

text \<open>The segments of a path between separators.\<close>

fun splitSep :: "string \<Rightarrow> string list" where
  "splitSep [] = [[]]"
| "splitSep (c # cs) =
     (if c = CHR ''/'' then [] # splitSep cs
      else (case splitSep cs of [] \<Rightarrow> [[c]] | s # ss \<Rightarrow> (c # s) # ss))"

text \<open>
  \<^verbatim>\<open>normalizeString\<close>: empty segments and \<^verbatim>\<open>.\<close> are dropped, \<^verbatim>\<open>..\<close> removes the
  segment before it; where there is none to remove, \<^verbatim>\<open>..\<close> is kept only when the
  path may climb above its start. The accumulator holds the segments kept so far, last
  one first.
\<close>

fun normalizeSegments :: "bool \<Rightarrow> string list \<Rightarrow> string list \<Rightarrow> string list" where
  "normalizeSegments allowAboveRoot acc [] = rev acc"
| "normalizeSegments allowAboveRoot acc (s # ss) =
     (if s = [] \<or> s = ''.'' then normalizeSegments allowAboveRoot acc ss
      else if s = ''..'' then
        (case acc of
           [] \<Rightarrow> normalizeSegments allowAboveRoot (if allowAboveRoot then [''..''] else []) ss
         | t # ts \<Rightarrow>
             if t \<noteq> ''..'' then normalizeSegments allowAboveRoot ts ss
             else normalizeSegments allowAboveRoot
                    (if allowAboveRoot then ''..'' # acc else acc) ss)
      else normalizeSegments allowAboveRoot (s # acc) ss)"

definition normalize :: "string \<Rightarrow> string" where
  "normalize p =
     (if p = [] then ''.''
      else
        let isAbs = (hd p = CHR ''/'');
            trailingSeparator = (last p = CHR ''/'');
            body = joinWith ''/'' (normalizeSegments (\<not> isAbs) [] (splitSep p))
        in if body = [] then
             (if isAbs then ''/'' else if trailingSeparator then ''./'' else ''.'')
           else (if isAbs then ''/'' else []) @ body @
                (if trailingSeparator then ''/'' else []))"

definition join :: "string list \<Rightarrow> string" where
  "join args =
     (let joined = filter (\<lambda>arg. arg \<noteq> []) args
      in if joined = [] then ''.'' else normalize (joinWith ''/'' joined))"

subsection \<open>The editor, the settings and the outside world\<close>

record Uri =
  scheme :: string
  fsPath :: string

record WorkspaceFolder =
  uri :: Uri

text \<open>
  Modelled from the spec: the Configuration structure returned by
  \<^verbatim>\<open>getCurrentConfiguration\<close> (module \<^verbatim>\<open>./configuration\<close> is not among the sources).
  It has the fields that \<^verbatim>\<open>utilities.ts\<close> reads; those the spec calls optional are
  options.
\<close>

record DiffMode =
  enabled :: bool
  mergeBase :: "string option"

record CredoConfiguration =
  configurationFile :: "string option"
  credoConfiguration :: "string option"
  checksWithTag :: "string list"
  checksWithoutTag :: "string list"
  strictMode :: bool
  diffMode :: DiffMode

text \<open>
  Modelled from the spec: the logger (module \<^verbatim>\<open>./logger\<close> is not among the sources)
  takes a severity level and a message; \<^verbatim>\<open>utilities.ts\<close> only logs warnings.
\<close>

datatype LogLevel = Warning

record LogEntry =
  message :: string
  level :: LogLevel

record World =
  existsSync :: "string \<Rightarrow> bool"
  getWorkspaceFolder :: "Uri \<Rightarrow> WorkspaceFolder option"
  getCurrentConfiguration :: CredoConfiguration
  getConfiguration :: "string \<Rightarrow> string \<Rightarrow> string option"
  processEnv :: "string \<Rightarrow> string option"

subsection \<open>Constants of the module\<close>

definition DefaultConfigFile :: string where
  "DefaultConfigFile = ''.credo.exs''"

definition DefaultCommand :: string where
  "DefaultCommand = ''credo''"

definition DiffCommand :: string where
  "DiffCommand = ''diff''"

definition DefaultCommandArguments :: "string list" where
  "DefaultCommandArguments = [''--format'', ''json'', ''--read-from-stdin'']"

subsection \<open>findUp\<close>

record FindUpOpts =
  startAt :: string
  stopAt :: "string option"

partial_function (option) findUp ::
  "World \<Rightarrow> string \<Rightarrow> FindUpOpts \<Rightarrow> string option option" where
  "findUp w name opts =
     (let dir = startAt opts; stop = stopAt opts;
          filePath = join [dir, name]
      in if existsSync w filePath then Some (Some dir)
         else if Some dir = stop then Some None
         else findUp w name \<lparr>startAt = dirname dir, stopAt = stop\<rparr>)"

declare findUp.simps [code]

text \<open>
  The recursion as the specification words it, with a bound on the number of
  directories it may visit: check the file in the directory; if it is there, return the
  directory; else if the directory is the stop directory, return "not found"; else
  continue with the parent. \<open>None\<close> means that the bound was reached.
\<close>

fun findUp_reference ::
  "nat \<Rightarrow> (string \<Rightarrow> bool) \<Rightarrow> string \<Rightarrow> string \<Rightarrow> string option \<Rightarrow> string option option" where
  "findUp_reference 0 present name dir stop = None"
| "findUp_reference (Suc n) present name dir stop =
     (if present (join [dir, name]) then Some (Some dir)
      else if stop = Some dir then Some None
      else findUp_reference n present name (dirname dir) stop)"

text \<open>
  A directory is a proper ancestor of another when it differs from it and is reached
  from it by taking the parent some number of times.
\<close>

definition proper_ancestor :: "string \<Rightarrow> string \<Rightarrow> bool" where
  "proper_ancestor d p = (d \<noteq> p \<and> (\<exists>m. d = (dirname ^^ m) p))"

subsection \<open>getProjectFolder and getCredoConfigFilePath\<close>

definition isFileUri :: "Uri \<Rightarrow> bool" where
  "isFileUri u = (scheme u = ''file'')"

definition inMixProject :: "World \<Rightarrow> Uri \<Rightarrow> bool option" where
  "inMixProject w documentUri =
     (case getWorkspaceFolder w documentUri of
        None \<Rightarrow> Some False
      | Some workspace \<Rightarrow>
          map_option truthy
            (findUp w ''mix.exs''
               \<lparr>startAt = dirname (fsPath documentUri),
                stopAt = Some (fsPath (uri workspace))\<rparr>))"

definition getProjectFolder :: "World \<Rightarrow> Uri \<Rightarrow> string option" where
  "getProjectFolder w documentUri =
     (let documentPath = fsPath documentUri;
          workspace = getWorkspaceFolder w documentUri
      in case (case workspace of
                 Some ws \<Rightarrow>
                   findUp w ''.credo.exs''
                     \<lparr>startAt = dirname (fsPath documentUri),
                      stopAt = Some (fsPath (uri ws))\<rparr>
               | None \<Rightarrow> Some None) of
           None \<Rightarrow> None
         | Some mixProjectPath \<Rightarrow>
             Some (js_or_str
                     (js_or mixProjectPath (map_option (\<lambda>ws. fsPath (uri ws)) workspace))
                     (dirname documentPath)))"

record ConfigFileOpts =
  silent :: "bool option"

definition notFoundEntry :: "string \<Rightarrow> LogEntry" where
  "notFoundEntry file =
     \<lparr>message = file @ '' file does not exist. Ignoring...'',
      level = Warning\<rparr>"

definition multipleEntry :: "string list \<Rightarrow> LogEntry" where
  "multipleEntry found =
     \<lparr>message = ''Found multiple files ('' @ joinWith '', '' found @ ''). I will use '' @
                 (case found of [] \<Rightarrow> ''undefined'' | f # _ \<Rightarrow> f),
      level = Warning\<rparr>"

definition getCredoConfigFilePath ::
  "World \<Rightarrow> Uri option \<Rightarrow> ConfigFileOpts option \<Rightarrow> (string option \<times> LogEntry list) option" where
  "getCredoConfigFilePath w documentUri opts =
     (let silent = (case opts of
                      None \<Rightarrow> False
                    | Some os \<Rightarrow> (case silent os of None \<Rightarrow> False | Some b \<Rightarrow> b));
          extensionConfig = getCurrentConfiguration w;
          configurationFile = js_or_str (configurationFile extensionConfig) DefaultConfigFile
      in if isAbsolute configurationFile \<and> existsSync w configurationFile
         then Some (Some configurationFile, [])
         else
           (case (case documentUri of
                    Some u \<Rightarrow> map_option Some (getProjectFolder w u)
                  | None \<Rightarrow> Some None) of
              None \<Rightarrow> None
            | Some projectFolder0 \<Rightarrow>
                (let projectFolder =
                       (case documentUri of
                          Some u \<Rightarrow>
                            (if \<not> truthy projectFolder0
                             then map_option (\<lambda>ws. fsPath (uri ws)) (getWorkspaceFolder w u)
                             else projectFolder0)
                        | None \<Rightarrow> projectFolder0);
                     found =
                       (if truthy projectFolder
                        then filter (existsSync w)
                               [join [template projectFolder, configurationFile],
                                join [template projectFolder, ''config'', configurationFile]]
                        else [])
                 in (case found of
                       [] \<Rightarrow>
                         Some (None,
                               (if \<not> silent then [notFoundEntry configurationFile] else []))
                     | f # _ \<Rightarrow>
                         Some (Some (replace f (template projectFolder @ sep) []),
                               (if 1 < length found \<and> \<not> silent
                                then [multipleEntry found] else []))))))"

subsection \<open>getCommandArguments and getCommandEnvironment\<close>

definition getCommandArguments ::
  "World \<Rightarrow> Uri option \<Rightarrow> (string list \<times> LogEntry list) option" where
  "getCommandArguments w documentUri =
     (let commandArguments = DefaultCommandArguments;
          extensionConfig = getCurrentConfiguration w
      in case getCredoConfigFilePath w documentUri None of
           None \<Rightarrow> None
         | Some (configFilePath, logged) \<Rightarrow>
             let commandArguments =
                   (if truthy configFilePath
                    then commandArguments @ [''--config-file'', template configFilePath]
                    else commandArguments);
                 commandArguments =
                   (if truthy (credoConfiguration extensionConfig)
                    then commandArguments @
                           [''--config-name'', template (credoConfiguration extensionConfig)]
                    else commandArguments);
                 commandArguments =
                   (if length (checksWithTag extensionConfig) \<noteq> 0
                    then foldl (\<lambda>args tag. args @ [''--checks-with-tag'', tag])
                           commandArguments (checksWithTag extensionConfig)
                    else if length (checksWithoutTag extensionConfig) \<noteq> 0
                    then foldl (\<lambda>args tag. args @ [''--checks-without-tag'', tag])
                           commandArguments (checksWithoutTag extensionConfig)
                    else commandArguments);
                 commandArguments =
                   (if strictMode extensionConfig
                    then commandArguments @ [''--strict'']
                    else commandArguments);
                 commandArguments =
                   (if enabled (diffMode extensionConfig)
                    then commandArguments @
                           [''--from-git-merge-base'',
                            js_or_str (mergeBase (diffMode extensionConfig)) ''main'']
                    else commandArguments);
                 commandPrefix =
                   (if enabled (diffMode extensionConfig)
                    then [DefaultCommand, DiffCommand]
                    else [DefaultCommand])
             in Some (commandPrefix @ commandArguments, logged))"

definition getCommandEnvironment :: "World \<Rightarrow> (string \<Rightarrow> string option)" where
  "getCommandEnvironment w =
     (let executePath = getConfiguration w ''elixir.credo'' ''executePath''
      in if truthy executePath
         then (processEnv w)
                (''PATH'' \<mapsto> template (processEnv w ''PATH'') @ delimiter @ template executePath)
         else processEnv w)"

subsection \<open>Notions used in the statements\<close>

text \<open>
  A document lies inside its workspace folder when the folder's path is reached from
  the document's directory by taking the parent some number of times (possibly none).
  This is what the editor answers for a document of an opened folder, and it is the
  input constraint under which the upward search is bounded.
\<close>

definition insideWorkspace :: "World \<Rightarrow> Uri option \<Rightarrow> bool" where
  "insideWorkspace w documentUri =
     (case documentUri of
        None \<Rightarrow> True
      | Some u \<Rightarrow>
          (case getWorkspaceFolder w u of
             None \<Rightarrow> True
           | Some ws \<Rightarrow> (\<exists>k. fsPath (uri ws) = (dirname ^^ k) (dirname (fsPath u)))))"

text \<open>One flag/value pair per tag, in the order of the tags.\<close>

definition flagPairs :: "string \<Rightarrow> string list \<Rightarrow> string list" where
  "flagPairs flag tags = concat (map (\<lambda>tag. [flag, tag]) tags)"

text \<open>
  A measure on paths that \<open>dirname\<close> decreases until it reaches one of its two fixed
  points, \<^verbatim>\<open>.\<close> and \<^verbatim>\<open>/\<close>.
\<close>

definition pathMeasure :: "string \<Rightarrow> nat" where
  "pathMeasure p = (if p = ''.'' \<or> p = ''/'' then 0 else Suc (length p))"

text \<open>
  A plain path segment: not empty, without a separator, and neither \<^verbatim>\<open>.\<close> nor
  \<^verbatim>\<open>..\<close>. A path made of plain segments is left as it is by \<open>normalize\<close>.
\<close>

definition plainSegment :: "string \<Rightarrow> bool" where
  "plainSegment s = (s \<noteq> [] \<and> CHR ''/'' \<notin> set s \<and> s \<noteq> ''.'' \<and> s \<noteq> ''..'')"

subsection \<open>Example worlds\<close>

definition exampleConfiguration :: CredoConfiguration where
  "exampleConfiguration =
     \<lparr>configurationFile = None, credoConfiguration = None, checksWithTag = [],
      checksWithoutTag = [], strictMode = False,
      diffMode = \<lparr>enabled = False, mergeBase = None\<rparr>\<rparr>"

definition exampleWorld :: "string list \<Rightarrow> string option \<Rightarrow> CredoConfiguration \<Rightarrow> World" where
  "exampleWorld files workspace config =
     \<lparr>existsSync = (\<lambda>p. p \<in> set files),
      getWorkspaceFolder =
        (\<lambda>u. map_option (\<lambda>d. \<lparr>uri = \<lparr>scheme = ''file'', fsPath = d\<rparr>\<rparr>) workspace),
      getCurrentConfiguration = config,
      getConfiguration = (\<lambda>section key. None),
      processEnv = (\<lambda>key. None)\<rparr>"

definition exampleDocument :: Uri where
  "exampleDocument = \<lparr>scheme = ''file'', fsPath = ''/proj/lib/a.ex''\<rparr>"

definition environmentWorld :: World where
  "environmentWorld =
     (exampleWorld [] None exampleConfiguration)
       \<lparr>getConfiguration :=
          (\<lambda>section key.
             if section = ''elixir.credo'' \<and> key = ''executePath''
             then Some ''/opt/elixir/bin'' else None),
        processEnv :=
          [''PATH'' \<mapsto> ''/usr/bin'', ''HOME'' \<mapsto> ''/root'']\<rparr>"

definition tagWorld :: World where
  "tagWorld =
     exampleWorld [''/proj/config/.credo.exs''] (Some ''/proj'')
       (exampleConfiguration\<lparr>checksWithTag := [''a'', ''b''], checksWithoutTag := [''c'']\<rparr>)"

definition diffWorld :: World where
  "diffWorld =
     exampleWorld [] None
       (exampleConfiguration\<lparr>credoConfiguration := Some ''lint'', strictMode := True,
          diffMode := \<lparr>enabled = True, mergeBase = None\<rparr>\<rparr>)"

definition plainWorld :: World where
  "plainWorld =
     exampleWorld [''/proj/.credo.exs'', ''/proj/config/.credo.exs''] (Some ''/proj'')
       (exampleConfiguration\<lparr>credoConfiguration := Some ''lint'',
          checksWithoutTag := [''slow'']\<rparr>)"

definition slashWorld :: World where
  "slashWorld = exampleWorld [] (Some ''/proj/'') exampleConfiguration"

definition rootDocument :: Uri where
  "rootDocument = \<lparr>scheme = ''file'', fsPath = ''/a.ex''\<rparr>"

definition climbWorld :: World where
  "climbWorld =
     exampleWorld [''/q/a/b/c.exs''] (Some ''/a/b'')
       (exampleConfiguration\<lparr>configurationFile := Some ''../../q/a/b/c.exs''\<rparr>)"

section \<open>Properties\<close>

subsection \<open>The chain of parent directories\<close>

text \<open>
  \<open>dirname\<close> has exactly two fixed points, \<^verbatim>\<open>.\<close> and \<^verbatim>\<open>/\<close>; on every other path
  it decreases \<open>pathMeasure\<close>. So a chain of parents never returns to a directory it
  has left, and a directory at or below the stop directory is no proper ancestor of it.
\<close>

lemma dirname_fixed_points: "dirname ''.'' = ''.''" "dirname ''/'' = ''/''"
  by (simp_all add: dirname_def)

lemma dropWhile_twice_shorter:
  assumes "dropWhile (\<lambda>c. c \<noteq> a) (dropWhile (\<lambda>c. c = a) xs) \<noteq> []"
  shows "length (dropWhile (\<lambda>c. c \<noteq> a) (dropWhile (\<lambda>c. c = a) xs)) < length xs"
proof -
  let ?r1 = "dropWhile (\<lambda>c. c = a) xs"
  from assms have ne: "?r1 \<noteq> []" by (metis dropWhile.simps(1))
  then have "hd ?r1 \<noteq> a" by (rule hd_dropWhile)
  with ne obtain x ys where r1: "?r1 = x # ys" "x \<noteq> a" by (cases ?r1) auto
  have "length (dropWhile (\<lambda>c. c \<noteq> a) ?r1) = length (dropWhile (\<lambda>c. c \<noteq> a) ys)"
    using r1 by simp
  also have "\<dots> \<le> length ys" by (rule length_dropWhile_le)
  also have "\<dots> < length ?r1" using r1 by simp
  also have "\<dots> \<le> length xs" by (rule length_dropWhile_le)
  finally show ?thesis .
qed

lemma dirname_Cons:
  "dirname (c # t) =
     (let r2 = dropWhile (\<lambda>c. c \<noteq> CHR ''/'') (dropWhile (\<lambda>c. c = CHR ''/'') (rev t))
      in if r2 = [] then (if c = CHR ''/'' then ''/'' else ''.'')
         else if c = CHR ''/'' \<and> length r2 = 1 then ''//''
         else take (length r2) (c # t))"
  unfolding dirname_def Let_def by (simp only: list.sel list.simps if_False)

lemma pathMeasure_simps:
  "pathMeasure ''.'' = 0" "pathMeasure ''/'' = 0" "pathMeasure ''//'' = 3"
  "pathMeasure p \<le> Suc (length p)"
  by (simp_all add: pathMeasure_def)

lemma dirname_decreases:
  assumes "p \<noteq> ''.''" "p \<noteq> ''/''"
  shows "pathMeasure (dirname p) < pathMeasure p"
proof (cases p)
  case Nil
  then show ?thesis by (simp add: dirname_def pathMeasure_def)
next
  case (Cons c t)
  let ?r2 = "dropWhile (\<lambda>c. c \<noteq> CHR ''/'') (dropWhile (\<lambda>c. c = CHR ''/'') (rev t))"
  have pm: "pathMeasure p = Suc (Suc (length t))"
    using assms Cons by (simp add: pathMeasure_def)
  have d: "dirname p =
     (if ?r2 = [] then (if c = CHR ''/'' then ''/'' else ''.'')
      else if c = CHR ''/'' \<and> length ?r2 = 1 then ''//''
      else take (length ?r2) (c # t))"
    unfolding Cons dirname_Cons Let_def ..
  show ?thesis
  proof (cases "?r2 = []")
    case True
    have "dirname p = ''/'' \<or> dirname p = ''.''"
      unfolding d by (simp only: True if_True split: if_split) blast
    then have "pathMeasure (dirname p) = 0"
      using pathMeasure_simps(1,2) by metis
    then show ?thesis using pm by simp
  next
    case False
    from dropWhile_twice_shorter [OF False] have lt: "length ?r2 < length t"
      by (simp only: length_rev)
    from False have "0 < length ?r2" by (rule iffD2 [OF length_greater_0_conv])
    with lt have two: "1 < length t" by linarith
    have "dirname p = ''//'' \<or> dirname p = take (length ?r2) (c # t)"
      unfolding d by (simp only: False if_False split: if_split) blast
    then show ?thesis
    proof
      assume "dirname p = ''//''"
      then have "pathMeasure (dirname p) = 3" by (simp only: pathMeasure_simps)
      with two pm show ?thesis by linarith
    next
      assume e: "dirname p = take (length ?r2) (c # t)"
      have "length (take (length ?r2) (c # t)) = min (length (c # t)) (length ?r2)"
        by (simp only: length_take)
      also have "\<dots> \<le> length ?r2" by (rule min.cobounded2)
      finally have "length (dirname p) \<le> length ?r2" unfolding e .
      moreover have "pathMeasure (dirname p) \<le> Suc (length (dirname p))"
        by (rule pathMeasure_simps)
      ultimately show ?thesis using lt pm by linarith
    qed
  qed
qed

lemma dirname_le: "pathMeasure (dirname p) \<le> pathMeasure p"
proof (cases "p = ''.'' \<or> p = ''/''")
  case True
  then have "dirname p = p"
    by (elim disjE) (simp_all only: dirname_fixed_points)
  then show ?thesis by (simp only: order_refl)
next
  case False
  then have "pathMeasure (dirname p) < pathMeasure p"
    by (intro dirname_decreases) blast+
  then show ?thesis by (rule less_imp_le)
qed

lemma dirname_fixed_iff: "dirname p = p \<longleftrightarrow> p = ''.'' \<or> p = ''/''"
proof
  assume fixed: "dirname p = p"
  show "p = ''.'' \<or> p = ''/''"
  proof (rule ccontr)
    assume "\<not> (p = ''.'' \<or> p = ''/'')"
    then have "pathMeasure (dirname p) < pathMeasure p"
      by (intro dirname_decreases) blast+
    then show False unfolding fixed by simp
  qed
next
  assume "p = ''.'' \<or> p = ''/''"
  then show "dirname p = p"
    by (elim disjE) (simp_all only: dirname_fixed_points)
qed

lemma funpow_dirname_fixed: "dirname p = p \<Longrightarrow> (dirname ^^ n) p = p"
  by (induction n) simp_all

lemma funpow_dirname_measure: "pathMeasure ((dirname ^^ n) p) \<le> pathMeasure p"
proof (induction n arbitrary: p)
  case 0
  then show ?case by simp
next
  case (Suc n)
  have "pathMeasure ((dirname ^^ n) (dirname p)) \<le> pathMeasure (dirname p)"
    by (rule Suc)
  also have "\<dots> \<le> pathMeasure p" by (rule dirname_le)
  finally show ?case by (simp only: funpow_Suc_right o_apply)
qed

lemma dirname_cycle_fixed:
  assumes "(dirname ^^ Suc n) p = p"
  shows "dirname p = p"
proof (rule ccontr)
  assume "dirname p \<noteq> p"
  then have "\<not> (p = ''.'' \<or> p = ''/'')" using dirname_fixed_iff by blast
  then have "pathMeasure (dirname p) < pathMeasure p"
    by (intro dirname_decreases) blast+
  moreover have "pathMeasure ((dirname ^^ n) (dirname p)) \<le> pathMeasure (dirname p)"
    by (rule funpow_dirname_measure)
  moreover have "(dirname ^^ n) (dirname p) = p"
    using assms by (simp only: funpow_Suc_right o_apply)
  ultimately show False by simp
qed

lemma below_stop_not_proper_ancestor:
  assumes "stop = (dirname ^^ n) d"
  shows "\<not> proper_ancestor d stop"
proof
  assume "proper_ancestor d stop"
  then obtain m where m: "d \<noteq> stop" "d = (dirname ^^ m) stop"
    unfolding proper_ancestor_def by blast
  have cyc: "(dirname ^^ (m + n)) d = d"
    using m(2) assms by (simp only: funpow_add o_apply)
  show False
  proof (cases "m + n")
    case 0
    then have "n = 0" by simp
    with assms have "stop = d" by simp
    with m(1) show False by simp
  next
    case (Suc q)
    with cyc have "(dirname ^^ Suc q) d = d" by (simp only:)
    then have "dirname d = d" by (rule dirname_cycle_fixed)
    then have "(dirname ^^ n) d = d" by (rule funpow_dirname_fixed)
    with assms m(1) show False by simp
  qed
qed

lemma dirname_nonempty: "dirname p \<noteq> []"
proof (cases p)
  case Nil
  then show ?thesis by (simp add: dirname_def)
next
  case (Cons c t)
  let ?r2 = "dropWhile (\<lambda>c. c \<noteq> CHR ''/'') (dropWhile (\<lambda>c. c = CHR ''/'') (rev t))"
  have d: "dirname p =
     (if ?r2 = [] then (if c = CHR ''/'' then ''/'' else ''.'')
      else if c = CHR ''/'' \<and> length ?r2 = 1 then ''//''
      else take (length ?r2) (c # t))"
    unfolding Cons dirname_Cons Let_def ..
  show ?thesis
  proof (cases "?r2 = []")
    case True
    have "dirname p = ''/'' \<or> dirname p = ''.''"
      unfolding d by (simp only: True if_True split: if_split) blast
    then show ?thesis by auto
  next
    case False
    then obtain x xs where r2: "?r2 = x # xs" by (cases ?r2) blast+
    have "dirname p = ''//'' \<or> dirname p = take (length ?r2) (c # t)"
      unfolding d by (simp only: False if_False split: if_split) blast
    then show ?thesis unfolding r2 by auto
  qed
qed

subsection \<open>Joining plain paths\<close>

text \<open>
  For a project folder \<^verbatim>\<open>/r1/.../rn\<close> and a configured name \<^verbatim>\<open>n1/.../nm\<close> made of
  plain segments, the two candidates are the project folder, the separator, and the
  name, respectively \<^verbatim>\<open>config/\<close> and the name.
\<close>

lemma splitSep_nonempty: "splitSep s \<noteq> []"
  by (induction s) (auto split: list.splits)

lemma splitSep_no_sep: "CHR ''/'' \<notin> set s \<Longrightarrow> splitSep s = [s]"
  by (induction s) auto

lemma splitSep_append:
  "CHR ''/'' \<notin> set s \<Longrightarrow> splitSep (s @ CHR ''/'' # rest) = s # splitSep rest"
  by (induction s) auto

lemma splitSep_joinWith:
  "segs \<noteq> [] \<Longrightarrow> \<forall>s\<in>set segs. CHR ''/'' \<notin> set s \<Longrightarrow>
   splitSep (joinWith ''/'' segs) = segs"
proof (induction segs)
  case Nil
  then show ?case by simp
next
  case (Cons x xs)
  show ?case
  proof (cases xs)
    case Nil
    with Cons.prems show ?thesis by (simp add: splitSep_no_sep)
  next
    case (Cons y ys)
    with Cons.IH Cons.prems have "splitSep (joinWith ''/'' (y # ys)) = y # ys" by simp
    with Cons Cons.prems show ?thesis by (simp add: splitSep_append)
  qed
qed

lemma normalizeSegments_plain:
  "\<forall>s\<in>set segs. plainSegment s \<Longrightarrow> normalizeSegments b acc segs = rev acc @ segs"
  by (induction segs arbitrary: acc) (auto simp add: plainSegment_def)

lemma joinWith_nonempty:
  "segs \<noteq> [] \<Longrightarrow> \<forall>s\<in>set segs. s \<noteq> [] \<Longrightarrow> joinWith sp segs \<noteq> []"
  by (induction sp segs rule: joinWith.induct) auto

lemma joinWith_last:
  "segs \<noteq> [] \<Longrightarrow> \<forall>s\<in>set segs. s \<noteq> [] \<Longrightarrow> last (joinWith sp segs) = last (last segs)"
proof (induction sp segs rule: joinWith.induct)
  case (3 s x y ys)
  then have "joinWith s (y # ys) \<noteq> []" by (intro joinWith_nonempty) auto
  with 3 show ?case by simp
qed auto

lemma joinWith_append:
  "xs \<noteq> [] \<Longrightarrow> ys \<noteq> [] \<Longrightarrow> joinWith sp (xs @ ys) = joinWith sp xs @ sp @ joinWith sp ys"
proof (induction sp xs rule: joinWith.induct)
  case (2 s x)
  then show ?case by (cases ys) auto
qed auto

lemma normalize_plain:
  assumes "segs \<noteq> []" "\<forall>s\<in>set segs. plainSegment s"
  shows "normalize (CHR ''/'' # joinWith ''/'' segs) = CHR ''/'' # joinWith ''/'' segs"
proof -
  have nosep: "\<forall>s\<in>set segs. CHR ''/'' \<notin> set s" and ne: "\<forall>s\<in>set segs. s \<noteq> []"
    using assms(2) by (auto simp add: plainSegment_def)
  have body: "joinWith ''/'' segs \<noteq> []" using assms(1) ne by (rule joinWith_nonempty)
  have "last (joinWith ''/'' segs) = last (last segs)" using assms(1) ne by (rule joinWith_last)
  moreover have "last segs \<in> set segs" using assms(1) by simp
  then have "last (last segs) \<in> set (last segs)" "CHR ''/'' \<notin> set (last segs)"
    using ne nosep by auto
  ultimately have last: "last (joinWith ''/'' segs) \<noteq> CHR ''/''" by metis
  have split: "splitSep (CHR ''/'' # joinWith ''/'' segs) = [] # segs"
    using splitSep_joinWith [OF assms(1) nosep] by simp
  have norm: "normalizeSegments False [] ([] # segs) = segs"
    using normalizeSegments_plain [OF assms(2), of False "[]"] by simp
  show ?thesis
    unfolding normalize_def Let_def split
    using body last norm by simp
qed

lemma join_plain:
  assumes "root \<noteq> []" "\<forall>s\<in>set root. plainSegment s"
    and "rel \<noteq> []" "\<forall>s\<in>set rel. plainSegment s"
  shows "join [CHR ''/'' # joinWith ''/'' root, joinWith ''/'' rel] =
           (CHR ''/'' # joinWith ''/'' root) @ sep @ joinWith ''/'' rel"
proof -
  have ne: "joinWith ''/'' rel \<noteq> []"
    using assms(3,4) by (intro joinWith_nonempty) (auto simp add: plainSegment_def)
  have all: "root @ rel \<noteq> []" "\<forall>s\<in>set (root @ rel). plainSegment s"
    using assms by auto
  have "join [CHR ''/'' # joinWith ''/'' root, joinWith ''/'' rel] =
      normalize (CHR ''/'' # joinWith ''/'' root @ ''/'' @ joinWith ''/'' rel)"
    using ne by (simp add: join_def)
  also have "\<dots> = normalize (CHR ''/'' # joinWith ''/'' (root @ rel))"
    using joinWith_append [OF assms(1,3), of "''/''"] by simp
  also have "\<dots> = CHR ''/'' # joinWith ''/'' (root @ rel)"
    using all by (rule normalize_plain)
  also have "\<dots> = (CHR ''/'' # joinWith ''/'' root) @ sep @ joinWith ''/'' rel"
    using joinWith_append [OF assms(1,3), of "''/''"] by (simp add: sep_def)
  finally show ?thesis .
qed

lemma candidates_plain:
  assumes "root \<noteq> []" "\<forall>s\<in>set root. plainSegment s"
    and "name \<noteq> []" "\<forall>s\<in>set name. plainSegment s"
    and "pf = CHR ''/'' # joinWith ''/'' root" and "cf = joinWith ''/'' name"
  shows "join [pf, cf] = pf @ sep @ cf"
    and "join [pf, ''config'', cf] = pf @ sep @ ''config/'' @ cf"
proof -
  show "join [pf, cf] = pf @ sep @ cf"
    unfolding assms(5,6) using assms(1-4) by (rule join_plain)
  have ne: "cf \<noteq> []"
    unfolding assms(6) using assms(3,4) by (intro joinWith_nonempty) (auto simp add: plainSegment_def)
  have cfg: "joinWith ''/'' (''config'' # name) = ''config/'' @ cf"
    using assms(3) unfolding assms(6) by (cases name) auto
  have plain: "''config'' # name \<noteq> []" "\<forall>s\<in>set (''config'' # name). plainSegment s"
    using assms(4) by (auto simp add: plainSegment_def)
  have "join [pf, ''config'', cf] = join [pf, joinWith ''/'' (''config'' # name)]"
    using ne unfolding cfg by (simp add: join_def assms(5))
  also have "\<dots> = pf @ sep @ joinWith ''/'' (''config'' # name)"
    unfolding assms(5) using assms(1,2) plain by (rule join_plain)
  finally show "join [pf, ''config'', cf] = pf @ sep @ ''config/'' @ cf"
    unfolding cfg .
qed

subsection \<open>The upward search\<close>

lemma findUp_unfold:
  "findUp w name \<lparr>startAt = dir, stopAt = stop\<rparr> =
     (if existsSync w (join [dir, name]) then Some (Some dir)
      else if Some dir = stop then Some None
      else findUp w name \<lparr>startAt = dirname dir, stopAt = stop\<rparr>)"
  by (subst findUp.simps) (simp add: Let_def)

lemma findUp_opts_eta:
  "findUp v name \<lparr>startAt = startAt opts, stopAt = stopAt opts\<rparr> = findUp v name opts"
  by (cases opts) simp

lemma findUp_search:
  "stop = (dirname ^^ k) start \<Longrightarrow>
   \<exists>j\<le>k. (\<forall>i<j. \<not> existsSync w (join [(dirname ^^ i) start, name]) \<and>
                  (dirname ^^ i) start \<noteq> stop) \<and>
          (if existsSync w (join [(dirname ^^ j) start, name])
           then findUp w name \<lparr>startAt = start, stopAt = Some stop\<rparr> =
                  Some (Some ((dirname ^^ j) start))
           else (dirname ^^ j) start = stop \<and>
                findUp w name \<lparr>startAt = start, stopAt = Some stop\<rparr> = Some None)"
proof (induction k arbitrary: start)
  case 0
  then show ?case by (simp add: findUp_unfold)
next
  case (Suc k)
  show ?case
  proof (cases "existsSync w (join [start, name]) \<or> start = stop")
    case True
    then have "(\<forall>i<(0::nat). \<not> existsSync w (join [(dirname ^^ i) start, name]) \<and>
                  (dirname ^^ i) start \<noteq> stop) \<and>
          (if existsSync w (join [(dirname ^^ 0) start, name])
           then findUp w name \<lparr>startAt = start, stopAt = Some stop\<rparr> =
                  Some (Some ((dirname ^^ 0) start))
           else (dirname ^^ 0) start = stop \<and>
                findUp w name \<lparr>startAt = start, stopAt = Some stop\<rparr> = Some None)"
      by (auto simp add: findUp_unfold [of w name start])
    then show ?thesis by blast
  next
    case False
    from Suc.prems have "stop = (dirname ^^ k) (dirname start)"
      by (simp add: funpow_swap1)
    from Suc.IH [OF this] obtain j where j: "j \<le> k"
      "\<forall>i<j. \<not> existsSync w (join [(dirname ^^ i) (dirname start), name]) \<and>
             (dirname ^^ i) (dirname start) \<noteq> stop"
      "if existsSync w (join [(dirname ^^ j) (dirname start), name])
       then findUp w name \<lparr>startAt = dirname start, stopAt = Some stop\<rparr> =
              Some (Some ((dirname ^^ j) (dirname start)))
       else (dirname ^^ j) (dirname start) = stop \<and>
            findUp w name \<lparr>startAt = dirname start, stopAt = Some stop\<rparr> = Some None"
      by blast
    have step: "findUp w name \<lparr>startAt = start, stopAt = Some stop\<rparr> =
                findUp w name \<lparr>startAt = dirname start, stopAt = Some stop\<rparr>"
      using False by (subst findUp_unfold) auto
    have sh: "\<And>i. (dirname ^^ Suc i) start = (dirname ^^ i) (dirname start)"
      by (simp add: funpow_swap1)
    have "\<forall>i<Suc j. \<not> existsSync w (join [(dirname ^^ i) start, name]) \<and>
            (dirname ^^ i) start \<noteq> stop"
    proof (intro allI impI)
      fix i assume "i < Suc j"
      show "\<not> existsSync w (join [(dirname ^^ i) start, name]) \<and> (dirname ^^ i) start \<noteq> stop"
      proof (cases i)
        case 0
        with False show ?thesis by simp
      next
        case (Suc i')
        with \<open>i < Suc j\<close> have "i' < j" by simp
        with j(2) show ?thesis unfolding Suc sh by blast
      qed
    qed
    moreover have "if existsSync w (join [(dirname ^^ Suc j) start, name])
       then findUp w name \<lparr>startAt = start, stopAt = Some stop\<rparr> =
              Some (Some ((dirname ^^ Suc j) start))
       else (dirname ^^ Suc j) start = stop \<and>
            findUp w name \<lparr>startAt = start, stopAt = Some stop\<rparr> = Some None"
      using j(3) unfolding sh step .
    moreover have "Suc j \<le> Suc k" using j(1) by simp
    ultimately show ?thesis by blast
  qed
qed

lemma findUp_returns:
  assumes "stop = (dirname ^^ k) start"
  shows "\<exists>r. findUp w name \<lparr>startAt = start, stopAt = Some stop\<rparr> = Some r"
  using findUp_search [OF assms, of w name] by (auto split: if_splits)

lemma findUp_reference_sound:
  "findUp_reference n (existsSync w) name dir stop = Some r \<Longrightarrow>
   findUp w name \<lparr>startAt = dir, stopAt = stop\<rparr> = Some r"
proof (induction n arbitrary: dir)
  case 0
  then show ?case by simp
next
  case (Suc n)
  show ?case
  proof (cases "existsSync w (join [dir, name]) \<or> stop = Some dir")
    case True
    with Suc.prems show ?thesis by (subst findUp_unfold) auto
  next
    case False
    with Suc.prems have "findUp_reference n (existsSync w) name (dirname dir) stop = Some r"
      by simp
    then have "findUp w name \<lparr>startAt = dirname dir, stopAt = stop\<rparr> = Some r"
      by (rule Suc.IH)
    with False show ?thesis by (subst findUp_unfold) auto
  qed
qed

lemma findUp_reference_complete:
  assumes "findUp w name opts = Some r"
  shows "\<exists>n. findUp_reference n (existsSync w) name (startAt opts) (stopAt opts) = Some r"
proof (rule findUp.raw_induct
    [where P = "\<lambda>w name opts r.
       \<exists>n. findUp_reference n (existsSync w) name (startAt opts) (stopAt opts) = Some r",
     OF _ assms])
  fix f :: "World \<Rightarrow> string \<Rightarrow> FindUpOpts \<Rightarrow> string option option"
  fix w name opts r
  assume IH: "\<And>w name opts r. f w name opts = Some r \<Longrightarrow>
      \<exists>n. findUp_reference n (existsSync w) name (startAt opts) (stopAt opts) = Some r"
    and body: "(let dir = startAt opts; stop = stopAt opts; filePath = join [dir, name]
       in if existsSync w filePath then Some (Some dir)
          else if Some dir = stop then Some None
          else f w name \<lparr>startAt = dirname dir, stopAt = stop\<rparr>) = Some r"
  show "\<exists>n. findUp_reference n (existsSync w) name (startAt opts) (stopAt opts) = Some r"
  proof (cases "existsSync w (join [startAt opts, name]) \<or> Some (startAt opts) = stopAt opts")
    case True
    with body
    have "findUp_reference (Suc 0) (existsSync w) name (startAt opts) (stopAt opts) = Some r"
      by (auto simp add: Let_def split: if_splits)
    then show ?thesis by blast
  next
    case False
    with body
    have "f w name \<lparr>startAt = dirname (startAt opts), stopAt = stopAt opts\<rparr> = Some r"
      by (auto simp add: Let_def split: if_splits)
    from IH [OF this] obtain n where
      "findUp_reference n (existsSync w) name (dirname (startAt opts)) (stopAt opts) = Some r"
      by auto
    with False
    have "findUp_reference (Suc n) (existsSync w) name (startAt opts) (stopAt opts) = Some r"
      by auto
    then show ?thesis by blast
  qed
qed

lemma findUp_reference_bounded:
  "stop = (dirname ^^ k) start \<Longrightarrow>
   \<exists>r. findUp_reference (Suc k) present name start (Some stop) = Some r"
proof (induction k arbitrary: start)
  case 0
  then show ?case by simp
next
  case (Suc k)
  then have "stop = (dirname ^^ k) (dirname start)" by (simp only: funpow_Suc_right o_apply)
  from Suc.IH [OF this] obtain r where
    "findUp_reference (Suc k) present name (dirname start) (Some stop) = Some r" by blast
  then show ?case by (subst findUp_reference.simps) simp
qed

lemma findUp_same_files_imp:
  assumes "existsSync w' = existsSync w" and "findUp w name opts = Some r"
  shows "findUp w' name opts = Some r"
proof -
  from assms(2) obtain n where
    "findUp_reference n (existsSync w) name (startAt opts) (stopAt opts) = Some r"
    using findUp_reference_complete by blast
  then have "findUp_reference n (existsSync w') name (startAt opts) (stopAt opts) = Some r"
    by (simp only: assms(1))
  then have "findUp w' name \<lparr>startAt = startAt opts, stopAt = stopAt opts\<rparr> = Some r"
    by (rule findUp_reference_sound)
  then show ?thesis by (simp only: findUp_opts_eta)
qed

lemma findUp_same_files:
  assumes "existsSync w' = existsSync w"
  shows "findUp w' name opts = findUp w name opts"
proof (cases "findUp w name opts")
  case (Some r)
  from findUp_same_files_imp [OF assms Some] Some show ?thesis by simp
next
  case None
  show ?thesis
  proof (cases "findUp w' name opts")
    case None
    with \<open>findUp w name opts = None\<close> show ?thesis by simp
  next
    case (Some r)
    from findUp_same_files_imp [OF assms [symmetric] Some] \<open>findUp w name opts = None\<close>
    show ?thesis by simp
  qed
qed

lemma findUp_reference_stuck:
  assumes "\<And>p. \<not> present p"
  shows "(\<And>k. (dirname ^^ k) dir \<noteq> stop) \<Longrightarrow>
         findUp_reference n present name dir (Some stop) = None"
proof (induction n arbitrary: dir)
  case 0
  then show ?case by simp
next
  case (Suc n)
  from Suc.prems [of 0] have ne: "dir \<noteq> stop" by simp
  have "(dirname ^^ k) (dirname dir) \<noteq> stop" for k
    using Suc.prems [of "Suc k"] by (simp add: funpow_swap1)
  then have rec: "findUp_reference n present name (dirname dir) (Some stop) = None"
    by (rule Suc.IH)
  have miss: "\<not> present (join [dir, name])" by (rule assms)
  from miss ne rec show ?case by simp
qed

lemma findUp_stuck:
  assumes "\<And>p. \<not> existsSync w p" and "\<And>k. (dirname ^^ k) dir \<noteq> stop"
  shows "findUp w name \<lparr>startAt = dir, stopAt = Some stop\<rparr> = None"
proof (cases "findUp w name \<lparr>startAt = dir, stopAt = Some stop\<rparr>")
  case None
  then show ?thesis .
next
  case (Some r)
  from findUp_reference_complete [OF Some] obtain n where
    "findUp_reference n (existsSync w) name dir (Some stop) = Some r" by auto
  moreover have "findUp_reference n (existsSync w) name dir (Some stop) = None"
    using assms by (rule findUp_reference_stuck)
  ultimately show ?thesis by simp
qed

text \<open>
  Claim C1. For every file name, start directory and optional stop directory,
  \<open>findUp\<close> returns a result exactly when the reference recursion of the
  specification (file present: the directory; else directory equal to the stop
  directory: not found; else the parent) returns that result within some number of
  steps. In particular, a search that starts in a directory holding the file returns
  that directory.
\<close>

theorem findUp_follows_reference:
  "(findUp w name opts = Some r \<longleftrightarrow>
      (\<exists>n. findUp_reference n (existsSync w) name (startAt opts) (stopAt opts) = Some r)) \<and>
   (existsSync w (join [startAt opts, name]) \<longrightarrow>
      findUp w name opts = Some (Some (startAt opts)))"
proof (intro conjI iffI impI)
  assume "findUp w name opts = Some r"
  then show "\<exists>n. findUp_reference n (existsSync w) name (startAt opts) (stopAt opts) = Some r"
    by (rule findUp_reference_complete)
next
  assume "\<exists>n. findUp_reference n (existsSync w) name (startAt opts) (stopAt opts) = Some r"
  then obtain n where
    "findUp_reference n (existsSync w) name (startAt opts) (stopAt opts) = Some r" ..
  then have "findUp w name \<lparr>startAt = startAt opts, stopAt = stopAt opts\<rparr> = Some r"
    by (rule findUp_reference_sound)
  then show "findUp w name opts = Some r" by (cases opts) simp
next
  assume "existsSync w (join [startAt opts, name])"
  then show "findUp w name opts = Some (Some (startAt opts))"
    by (subst findUp.simps) (simp add: Let_def)
qed

theorem findUp_follows_reference_witness:
  "findUp (exampleWorld [''/proj/.credo.exs''] None exampleConfiguration) ''.credo.exs''
     \<lparr>startAt = ''/proj/lib/web'', stopAt = Some ''/''\<rparr> = Some (Some ''/proj'') \<and>
   findUp (exampleWorld [''/proj/.credo.exs''] None exampleConfiguration) ''.credo.exs''
     \<lparr>startAt = ''/proj/lib'', stopAt = Some ''/proj/lib''\<rparr> = Some None \<and>
   findUp (exampleWorld [''/proj/.credo.exs''] None exampleConfiguration) ''.credo.exs''
     \<lparr>startAt = ''/proj'', stopAt = None\<rparr> = Some (Some ''/proj'')"
proof -
  let ?w = "exampleWorld [''/proj/.credo.exs''] None exampleConfiguration"
  have "\<exists>n. findUp_reference n (existsSync ?w) ''.credo.exs'' ''/proj/lib/web''
          (Some ''/'') = Some (Some ''/proj'')"
    by (rule exI [of _ "Suc (Suc (Suc 0))"])
       (simp add: exampleWorld_def join_def normalize_def dirname_def)
  then have a: "findUp ?w ''.credo.exs'' \<lparr>startAt = ''/proj/lib/web'', stopAt = Some ''/''\<rparr> =
      Some (Some ''/proj'')"
    using findUp_follows_reference
      [of ?w "''.credo.exs''" "\<lparr>startAt = ''/proj/lib/web'', stopAt = Some ''/''\<rparr>" "Some ''/proj''"]
    by simp
  have "\<exists>n. findUp_reference n (existsSync ?w) ''.credo.exs'' ''/proj/lib''
          (Some ''/proj/lib'') = Some None"
    by (rule exI [of _ "Suc 0"])
       (simp add: exampleWorld_def join_def normalize_def dirname_def)
  then have b: "findUp ?w ''.credo.exs'' \<lparr>startAt = ''/proj/lib'', stopAt = Some ''/proj/lib''\<rparr> =
      Some None"
    using findUp_follows_reference
      [of ?w "''.credo.exs''" "\<lparr>startAt = ''/proj/lib'', stopAt = Some ''/proj/lib''\<rparr>" None]
    by simp
  have "existsSync ?w (join [''/proj'', ''.credo.exs''])"
    by (simp add: exampleWorld_def join_def normalize_def)
  then have c: "findUp ?w ''.credo.exs'' \<lparr>startAt = ''/proj'', stopAt = None\<rparr> =
      Some (Some ''/proj'')"
    using findUp_follows_reference
      [of ?w "''.credo.exs''" "\<lparr>startAt = ''/proj'', stopAt = None\<rparr>"]
    by simp
  from a b c show ?thesis by blast
qed

text \<open>
  Claim C2. When the stop directory is reached from the start directory by taking the
  parent \<open>k\<close> times, the search returns, and the recursion bounded by \<open>k + 1\<close> visited
  directories returns the same result. A directory it returns is the \<open>j\<close>-th parent of
  the start directory for some \<open>j \<le> k\<close>, no directory visited before it is the stop
  directory, and it is not a proper ancestor of the stop directory.
\<close>

theorem findUp_stops_at_boundary:
  assumes "stop = (dirname ^^ k) start"
  shows "\<exists>r. findUp_reference (Suc k) (existsSync w) name start (Some stop) = Some r \<and>
             findUp w name \<lparr>startAt = start, stopAt = Some stop\<rparr> = Some r \<and>
             (\<forall>d. r = Some d \<longrightarrow>
                (\<exists>j\<le>k. d = (dirname ^^ j) start \<and> (\<forall>i<j. (dirname ^^ i) start \<noteq> stop)) \<and>
                \<not> proper_ancestor d stop)"
proof -
  from findUp_reference_bounded [OF assms] obtain r where
    ref: "findUp_reference (Suc k) (existsSync w) name start (Some stop) = Some r" by blast
  then have run: "findUp w name \<lparr>startAt = start, stopAt = Some stop\<rparr> = Some r"
    by (rule findUp_reference_sound)
  have "(\<exists>j\<le>k. d = (dirname ^^ j) start \<and> (\<forall>i<j. (dirname ^^ i) start \<noteq> stop)) \<and>
        \<not> proper_ancestor d stop" if r: "r = Some d" for d
  proof -
    from findUp_search [OF assms, of w name] obtain j where j: "j \<le> k"
      "\<forall>i<j. \<not> existsSync w (join [(dirname ^^ i) start, name]) \<and> (dirname ^^ i) start \<noteq> stop"
      "if existsSync w (join [(dirname ^^ j) start, name])
       then findUp w name \<lparr>startAt = start, stopAt = Some stop\<rparr> =
              Some (Some ((dirname ^^ j) start))
       else (dirname ^^ j) start = stop \<and>
            findUp w name \<lparr>startAt = start, stopAt = Some stop\<rparr> = Some None"
      by blast
    from j(3) run r have d: "d = (dirname ^^ j) start"
      by (cases "existsSync w (join [(dirname ^^ j) start, name])") simp_all
    from j(1) have "k = (k - j) + j" by simp
    then have "(dirname ^^ k) start = (dirname ^^ (k - j)) ((dirname ^^ j) start)"
      by (metis funpow_add o_apply)
    with assms d have "stop = (dirname ^^ (k - j)) d" by simp
    then have "\<not> proper_ancestor d stop" by (rule below_stop_not_proper_ancestor)
    with d j(1,2) show ?thesis by blast
  qed
  with ref run show ?thesis by blast
qed

theorem findUp_stops_at_boundary_witness:
  "''/proj'' = (dirname ^^ 2) ''/proj/lib/web'' \<and>
   findUp (exampleWorld [''/.credo.exs''] None exampleConfiguration) ''.credo.exs''
     \<lparr>startAt = ''/proj/lib/web'', stopAt = Some ''/proj''\<rparr> = Some None \<and>
   findUp (exampleWorld [''/proj/lib/.credo.exs'', ''/.credo.exs''] None exampleConfiguration)
     ''.credo.exs'' \<lparr>startAt = ''/proj/lib/web'', stopAt = Some ''/proj''\<rparr> =
     Some (Some ''/proj/lib'') \<and>
   \<not> proper_ancestor ''/proj/lib'' ''/proj''"
proof -
  have h: "''/proj'' = (dirname ^^ 2) ''/proj/lib/web''"
    by (simp add: numeral_2_eq_2 dirname_def)
  have r1: "findUp_reference (Suc 2) (existsSync (exampleWorld [''/.credo.exs''] None exampleConfiguration))
      ''.credo.exs'' ''/proj/lib/web'' (Some ''/proj'') = Some None"
    by (simp add: numeral_2_eq_2 exampleWorld_def join_def normalize_def dirname_def)
  have r2: "findUp_reference (Suc 2)
      (existsSync (exampleWorld [''/proj/lib/.credo.exs'', ''/.credo.exs''] None exampleConfiguration))
      ''.credo.exs'' ''/proj/lib/web'' (Some ''/proj'') = Some (Some ''/proj/lib'')"
    by (simp add: numeral_2_eq_2 exampleWorld_def join_def normalize_def dirname_def)
  from findUp_stops_at_boundary
    [OF h, of "exampleWorld [''/.credo.exs''] None exampleConfiguration" "''.credo.exs''"] r1
  have a: "findUp (exampleWorld [''/.credo.exs''] None exampleConfiguration) ''.credo.exs''
     \<lparr>startAt = ''/proj/lib/web'', stopAt = Some ''/proj''\<rparr> = Some None"
    by auto
  from findUp_stops_at_boundary
    [OF h, of "exampleWorld [''/proj/lib/.credo.exs'', ''/.credo.exs''] None exampleConfiguration"
       "''.credo.exs''"] r2
  have b: "findUp (exampleWorld [''/proj/lib/.credo.exs'', ''/.credo.exs''] None exampleConfiguration)
     ''.credo.exs'' \<lparr>startAt = ''/proj/lib/web'', stopAt = Some ''/proj''\<rparr> =
     Some (Some ''/proj/lib'') \<and> \<not> proper_ancestor ''/proj/lib'' ''/proj''"
    by auto
  from h a b show ?thesis by blast
qed

subsection \<open>The project folder and the configuration file\<close>

lemma replace_prefix: "pat \<noteq> [] \<Longrightarrow> replace (pat @ rest) pat [] = rest"
  by (cases pat) simp_all

lemma getProjectFolder_nonempty:
  "getProjectFolder w u = Some pf \<Longrightarrow> pf \<noteq> []"
  using dirname_nonempty [of "fsPath u"]
  by (auto simp add: getProjectFolder_def Let_def js_or_str_def js_or_def truthy_def
      split: option.splits if_splits)

lemma getProjectFolder_returns:
  assumes "insideWorkspace w (Some u)"
  shows "\<exists>pf. getProjectFolder w u = Some pf"
proof (cases "getWorkspaceFolder w u")
  case None
  then show ?thesis by (simp add: getProjectFolder_def)
next
  case (Some ws)
  with assms obtain k where "fsPath (uri ws) = (dirname ^^ k) (dirname (fsPath u))"
    by (auto simp add: insideWorkspace_def)
  from findUp_returns [OF this, of w "''.credo.exs''"] obtain r where
    "findUp w ''.credo.exs''
       \<lparr>startAt = dirname (fsPath u), stopAt = Some (fsPath (uri ws))\<rparr> = Some r"
    by blast
  with Some show ?thesis by (simp add: getProjectFolder_def)
qed

lemma getProjectFolder_configuration:
  "getProjectFolder (w\<lparr>getCurrentConfiguration := c\<rparr>) u = getProjectFolder w u"
proof -
  have "findUp (w\<lparr>getCurrentConfiguration := c\<rparr>) name opts = findUp w name opts" for name opts
    by (rule findUp_same_files) simp
  then show ?thesis by (simp add: getProjectFolder_def Let_def split: option.split)
qed

lemma getCredoConfigFilePath_search:
  assumes "cf = js_or_str (configurationFile (getCurrentConfiguration w)) DefaultConfigFile"
    and "\<not> (isAbsolute cf \<and> existsSync w cf)"
    and "getProjectFolder w u = Some pf"
  shows "getCredoConfigFilePath w (Some u) opts =
     (case filter (existsSync w) [join [pf, cf], join [pf, ''config'', cf]] of
        [] \<Rightarrow> Some (None, if opts = Some \<lparr>silent = Some True\<rparr> then [] else [notFoundEntry cf])
      | f # rest \<Rightarrow>
          Some (Some (replace f (pf @ sep) []),
                if rest \<noteq> [] \<and> opts \<noteq> Some \<lparr>silent = Some True\<rparr>
                then [multipleEntry (f # rest)] else []))"
proof -
  from assms(3) have "pf \<noteq> []" by (rule getProjectFolder_nonempty)
  then have t: "truthy (Some pf)" "template (Some pf) = pf"
    by (simp_all add: truthy_def template_def)
  have s: "(case opts of None \<Rightarrow> False
            | Some os \<Rightarrow> (case silent os of None \<Rightarrow> False | Some b \<Rightarrow> b)) =
           (opts = Some \<lparr>silent = Some True\<rparr>)"
    by (cases opts) (auto split: option.splits)
  show ?thesis
    unfolding getCredoConfigFilePath_def Let_def s
    using assms(1,2,3) t
    by (cases "filter (existsSync w) [join [pf, cf], join [pf, ''config'', cf]]")
       (auto simp del: filter.simps)
qed

lemma getCredoConfigFilePath_returns:
  assumes "insideWorkspace w documentUri"
  shows "\<exists>p logged. getCredoConfigFilePath w documentUri opts = Some (p, logged)"
proof (cases "isAbsolute (js_or_str (configurationFile (getCurrentConfiguration w)) DefaultConfigFile) \<and>
    existsSync w (js_or_str (configurationFile (getCurrentConfiguration w)) DefaultConfigFile)")
  case True
  then show ?thesis by (simp add: getCredoConfigFilePath_def Let_def)
next
  case False
  show ?thesis
  proof (cases documentUri)
    case None
    with False show ?thesis
      by (simp add: getCredoConfigFilePath_def Let_def truthy_def)
  next
    case (Some u)
    with assms obtain pf where "getProjectFolder w u = Some pf"
      using getProjectFolder_returns by blast
    from getCredoConfigFilePath_search [OF refl False this, of opts] Some
    show ?thesis by (auto split: list.splits)
  qed
qed

lemma getCredoConfigFilePath_configuration:
  "configurationFile c = configurationFile (getCurrentConfiguration w) \<Longrightarrow>
   getCredoConfigFilePath (w\<lparr>getCurrentConfiguration := c\<rparr>) documentUri opts =
   getCredoConfigFilePath w documentUri opts"
  by (simp add: getCredoConfigFilePath_def getProjectFolder_configuration
      cong: option.case_cong if_cong)

lemma getCredoConfigFilePath_not_found:
  assumes "cf = js_or_str (configurationFile (getCurrentConfiguration w)) DefaultConfigFile"
    and "insideWorkspace w documentUri"
    and "\<not> (isAbsolute cf \<and> existsSync w cf)"
    and "\<forall>u pf. documentUri = Some u \<and> getProjectFolder w u = Some pf \<longrightarrow>
           \<not> existsSync w (join [pf, cf]) \<and> \<not> existsSync w (join [pf, ''config'', cf])"
  shows "getCredoConfigFilePath w documentUri opts =
           Some (None, if opts = Some \<lparr>silent = Some True\<rparr> then [] else [notFoundEntry cf])"
proof (cases documentUri)
  case None
  with assms(1,3) show ?thesis
    by (cases opts) (auto simp add: getCredoConfigFilePath_def Let_def truthy_def split: option.splits)
next
  case (Some u)
  with assms(2) obtain pf where pf: "getProjectFolder w u = Some pf"
    using getProjectFolder_returns by blast
  with assms(4) Some
  have "filter (existsSync w) [join [pf, cf], join [pf, ''config'', cf]] = []" by simp
  with getCredoConfigFilePath_search [OF assms(1,3) pf, of opts] Some
  show ?thesis by (simp del: filter.simps)
qed

lemma example_insideWorkspace:
  "insideWorkspace (exampleWorld files (Some ''/proj'') c) (Some exampleDocument)"
proof -
  have "''/proj'' = (dirname ^^ Suc 0) (dirname ''/proj/lib/a.ex'')"
    by (simp add: dirname_def)
  then show ?thesis
    unfolding insideWorkspace_def exampleWorld_def exampleDocument_def
    by (simp del: funpow.simps) blast
qed

text \<open>
  Claim C3. When the configured configuration file is an absolute path and
  \<^verbatim>\<open>fs.existsSync\<close> answers yes for it, \<open>getCredoConfigFilePath\<close> returns that very
  path and logs nothing, whatever the document, the workspace folders and the other
  files are: no project folder is computed, so the result is there even in a world in
  which the upward search would not return.
\<close>

theorem absolute_override_verbatim:
  assumes "configurationFile (getCurrentConfiguration w) = Some p"
    and "isAbsolute p" and "existsSync w p"
  shows "getCredoConfigFilePath w documentUri opts = Some (Some p, [])"
proof -
  from assms(2) have "p \<noteq> []" by (simp add: isAbsolute_def)
  with assms(1)
  have "js_or_str (configurationFile (getCurrentConfiguration w)) DefaultConfigFile = p"
    by (simp add: js_or_str_def)
  with assms(2,3) show ?thesis
    by (simp add: getCredoConfigFilePath_def Let_def)
qed

theorem absolute_override_verbatim_witness:
  "getCredoConfigFilePath
     (exampleWorld [''/etc/credo.exs'', ''/proj/etc/credo.exs'', ''/proj/config/etc/credo.exs'']
        (Some ''/proj'') (exampleConfiguration\<lparr>configurationFile := Some ''/etc/credo.exs''\<rparr>))
     (Some exampleDocument) None = Some (Some ''/etc/credo.exs'', [])"
  using absolute_override_verbatim
    [of "exampleWorld [''/etc/credo.exs'', ''/proj/etc/credo.exs'', ''/proj/config/etc/credo.exs'']
        (Some ''/proj'') (exampleConfiguration\<lparr>configurationFile := Some ''/etc/credo.exs''\<rparr>)"
        "''/etc/credo.exs''" "Some exampleDocument" None]
  by (simp add: exampleWorld_def exampleConfiguration_def isAbsolute_def)

text \<open>
  Claim C10. Without a document URI, and unless the configured file is an absolute path
  that exists, \<open>getCredoConfigFilePath\<close> returns null. The result does not depend on
  the workspace folders or on any other file; the only effect is the "does not exist"
  warning, which the \<open>silent\<close> option suppresses.
\<close>

theorem no_document_no_config:
  assumes "cf = js_or_str (configurationFile (getCurrentConfiguration w)) DefaultConfigFile"
    and "\<not> (isAbsolute cf \<and> existsSync w cf)"
  shows "getCredoConfigFilePath w None opts =
           Some (None, if opts = Some \<lparr>silent = Some True\<rparr> then [] else [notFoundEntry cf])"
  using assms
  by (cases opts) (auto simp add: getCredoConfigFilePath_def Let_def truthy_def split: option.splits)

theorem no_document_no_config_witness:
  "getCredoConfigFilePath
     (exampleWorld [''/proj/.credo.exs'', ''/.credo.exs'', ''.credo.exs''] (Some ''/proj'')
        exampleConfiguration)
     None None = Some (None, [notFoundEntry ''.credo.exs''])"
  using no_document_no_config
    [of "''.credo.exs''"
        "exampleWorld [''/proj/.credo.exs'', ''/.credo.exs'', ''.credo.exs''] (Some ''/proj'')
           exampleConfiguration" None]
  by (simp add: exampleWorld_def exampleConfiguration_def isAbsolute_def js_or_str_def
      DefaultConfigFile_def)

text \<open>
  When the configured file is not an absolute path that exists and at least one
  candidate exists, the first existing candidate in the order
  \<^verbatim>\<open><projectRoot>/<configName>\<close>, \<^verbatim>\<open><projectRoot>/config/<configName>\<close> is chosen. Where that
  candidate begins with the project root followed by the separator, the result is the
  rest of it: for the project root \<^verbatim>\<open>/proj\<close> and the file \<^verbatim>\<open>/proj/config/.credo.exs\<close>
  it is \<^verbatim>\<open>config/.credo.exs\<close>.
\<close>

lemma first_candidate_with_prefix:
  assumes "cf = js_or_str (configurationFile (getCurrentConfiguration w)) DefaultConfigFile"
    and "\<not> (isAbsolute cf \<and> existsSync w cf)"
    and "getProjectFolder w u = Some pf"
    and "filter (existsSync w) [join [pf, cf], join [pf, ''config'', cf]] = f # others"
    and "f = pf @ sep @ rel"
  shows "f = (if existsSync w (join [pf, cf]) then join [pf, cf] else join [pf, ''config'', cf]) \<and>
         (\<exists>logged. getCredoConfigFilePath w (Some u) opts = Some (Some rel, logged))"
proof -
  from assms(4) have first:
    "f = (if existsSync w (join [pf, cf]) then join [pf, cf] else join [pf, ''config'', cf])"
    by (auto split: if_splits)
  have "replace ((pf @ sep) @ rel) (pf @ sep) [] = rel"
    by (rule replace_prefix) (simp add: sep_def)
  with assms(5) have "replace f (pf @ sep) [] = rel" by simp
  with getCredoConfigFilePath_search [OF assms(1,2,3), of opts] assms(4)
  have "\<exists>logged. getCredoConfigFilePath w (Some u) opts = Some (Some rel, logged)"
    by (simp del: filter.simps)
  with first show ?thesis by blast
qed

lemma first_candidate_example:
  "getCredoConfigFilePath tagWorld (Some exampleDocument) None =
     Some (Some ''config/.credo.exs'', [])"
  by code_simp

text \<open>
  Claim C4. The claim asks for the first existing candidate with the project-root
  prefix and the separator stripped, a path relative to the project root. The code
  removes the leftmost occurrence of the project folder followed by the separator, and
  that misses a project folder which already ends in the separator: for the document
  \<^verbatim>\<open>/a.ex\<close> outside any workspace folder the project folder is \<^verbatim>\<open>/\<close>, the only existing
  candidate is \<^verbatim>\<open>/.credo.exs\<close>, the text to remove is \<^verbatim>\<open>//\<close>, and the result is the
  absolute path \<^verbatim>\<open>/.credo.exs\<close> instead of \<^verbatim>\<open>.credo.exs\<close>.
\<close>

theorem strip_misses_root_project_folder:
  "getProjectFolder (exampleWorld [''/.credo.exs''] None exampleConfiguration) rootDocument =
     Some ''/'' \<and>
   filter (existsSync (exampleWorld [''/.credo.exs''] None exampleConfiguration))
     [join [''/'', ''.credo.exs''], join [''/'', ''config'', ''.credo.exs'']] = [''/.credo.exs''] \<and>
   getCredoConfigFilePath (exampleWorld [''/.credo.exs''] None exampleConfiguration)
     (Some rootDocument) None = Some (Some ''/.credo.exs'', []) \<and>
   isAbsolute ''/.credo.exs''"
  by code_simp

text \<open>
  The same replacement removes an occurrence inside the candidate when the candidate
  does not begin with the project folder: with the project folder \<^verbatim>\<open>/a/b\<close> and the
  configured name \<^verbatim>\<open>../../q/a/b/c.exs\<close> the candidate is \<^verbatim>\<open>/q/a/b/c.exs\<close> and the result
  is \<^verbatim>\<open>/qc.exs\<close>.
\<close>

lemma strip_removes_inner_occurrence:
  "getProjectFolder climbWorld \<lparr>scheme = ''file'', fsPath = ''/a/b/x.ex''\<rparr> = Some ''/a/b'' \<and>
   filter (existsSync climbWorld)
     [join [''/a/b'', ''../../q/a/b/c.exs''], join [''/a/b'', ''config'', ''../../q/a/b/c.exs'']] =
     [''/q/a/b/c.exs''] \<and>
   getCredoConfigFilePath climbWorld (Some \<lparr>scheme = ''file'', fsPath = ''/a/b/x.ex''\<rparr>) None =
     Some (Some ''/qc.exs'', [])"
  by code_simp

subsection \<open>The command line\<close>

lemma foldl_push_pairs:
  "foldl (\<lambda>args tag. args @ [flag, tag]) acc tags = acc @ flagPairs flag tags"
  by (induction tags arbitrary: acc) (simp_all add: flagPairs_def)

lemma flagPairs_Nil: "flagPairs flag [] = []"
  by (simp add: flagPairs_def)

lemma getCommandArguments_shape:
  assumes "getCredoConfigFilePath w documentUri None = Some (p, logged)"
    and "c = getCurrentConfiguration w"
  shows "getCommandArguments w documentUri =
     Some ((if enabled (diffMode c) then [''credo'', ''diff''] else [''credo'']) @
           [''--format'', ''json'', ''--read-from-stdin''] @
           (if truthy p then [''--config-file'', template p] else []) @
           (if truthy (credoConfiguration c)
            then [''--config-name'', template (credoConfiguration c)] else []) @
           (if checksWithTag c \<noteq> [] then flagPairs ''--checks-with-tag'' (checksWithTag c)
            else flagPairs ''--checks-without-tag'' (checksWithoutTag c)) @
           (if strictMode c then [''--strict''] else []) @
           (if enabled (diffMode c)
            then [''--from-git-merge-base'', js_or_str (mergeBase (diffMode c)) ''main'']
            else []),
           logged)"
  using assms
  by (simp add: getCommandArguments_def Let_def foldl_push_pairs flagPairs_Nil
      DefaultCommandArguments_def DefaultCommand_def DiffCommand_def)

text \<open>
  Claim C5. For a document inside its workspace folder, the argument list has one
  \<^verbatim>\<open>--checks-with-tag\<close> pair per include tag and nothing for the exclude tags when
  the include list is non-empty, and one \<^verbatim>\<open>--checks-without-tag\<close> pair per exclude
  tag only when the include list is empty. With a non-empty include list the whole
  result is the same for every exclude list. For the include tags \<^verbatim>\<open>a\<close>, \<^verbatim>\<open>b\<close> and
  the exclude tag \<^verbatim>\<open>c\<close> the list holds
  \<^verbatim>\<open>--checks-with-tag a --checks-with-tag b\<close> and no exclude flag.
\<close>

theorem include_tags_shadow_exclude_tags:
  assumes "insideWorkspace w documentUri" and "c = getCurrentConfiguration w"
  shows "\<exists>p logged.
     getCredoConfigFilePath w documentUri None = Some (p, logged) \<and>
     getCommandArguments w documentUri =
       Some ((if enabled (diffMode c) then [''credo'', ''diff''] else [''credo'']) @
             [''--format'', ''json'', ''--read-from-stdin''] @
             (if truthy p then [''--config-file'', template p] else []) @
             (if truthy (credoConfiguration c)
              then [''--config-name'', template (credoConfiguration c)] else []) @
             (if checksWithTag c \<noteq> []
              then concat (map (\<lambda>tag. [''--checks-with-tag'', tag]) (checksWithTag c))
              else concat (map (\<lambda>tag. [''--checks-without-tag'', tag]) (checksWithoutTag c))) @
             (if strictMode c then [''--strict''] else []) @
             (if enabled (diffMode c)
              then [''--from-git-merge-base'', js_or_str (mergeBase (diffMode c)) ''main'']
              else []),
             logged) \<and>
     (checksWithTag c \<noteq> [] \<longrightarrow>
        (\<forall>excluded.
           getCommandArguments
             (w\<lparr>getCurrentConfiguration := c\<lparr>checksWithoutTag := excluded\<rparr>\<rparr>) documentUri =
           getCommandArguments w documentUri))"
proof -
  from getCredoConfigFilePath_returns [OF assms(1)] obtain p logged where
    p: "getCredoConfigFilePath w documentUri None = Some (p, logged)" by blast
  note shape = getCommandArguments_shape [OF p assms(2)]
  have "getCommandArguments
          (w\<lparr>getCurrentConfiguration := c\<lparr>checksWithoutTag := excluded\<rparr>\<rparr>) documentUri =
        getCommandArguments w documentUri"
    if tags: "checksWithTag c \<noteq> []" for excluded
  proof -
    let ?c' = "c\<lparr>checksWithoutTag := excluded\<rparr>"
    let ?w' = "w\<lparr>getCurrentConfiguration := ?c'\<rparr>"
    have "configurationFile ?c' = configurationFile (getCurrentConfiguration w)"
      using assms(2) by simp
    then have "getCredoConfigFilePath ?w' documentUri None = getCredoConfigFilePath w documentUri None"
      by (rule getCredoConfigFilePath_configuration)
    with p have p': "getCredoConfigFilePath ?w' documentUri None = Some (p, logged)" by simp
    have c': "?c' = getCurrentConfiguration ?w'" by simp
    from getCommandArguments_shape [OF p' c'] shape tags show ?thesis by simp
  qed
  with p shape show ?thesis unfolding flagPairs_def by blast
qed

theorem include_tags_shadow_exclude_tags_witness:
  "getCommandArguments tagWorld (Some exampleDocument) =
     Some ([''credo'', ''--format'', ''json'', ''--read-from-stdin'',
            ''--config-file'', ''config/.credo.exs'',
            ''--checks-with-tag'', ''a'', ''--checks-with-tag'', ''b''], []) \<and>
   getCommandArguments
     (tagWorld\<lparr>getCurrentConfiguration :=
        (getCurrentConfiguration tagWorld)\<lparr>checksWithoutTag := [''x'', ''y'']\<rparr>\<rparr>)
     (Some exampleDocument) =
   getCommandArguments tagWorld (Some exampleDocument)"
proof -
  have inside: "insideWorkspace tagWorld (Some exampleDocument)"
    unfolding tagWorld_def by (rule example_insideWorkspace)
  have p: "getCredoConfigFilePath tagWorld (Some exampleDocument) None =
     Some (Some ''config/.credo.exs'', [])"
    by code_simp
  have c: "checksWithTag (getCurrentConfiguration tagWorld) = [''a'', ''b'']"
    "checksWithoutTag (getCurrentConfiguration tagWorld) = [''c'']"
    "credoConfiguration (getCurrentConfiguration tagWorld) = None"
    "strictMode (getCurrentConfiguration tagWorld) = False"
    "enabled (diffMode (getCurrentConfiguration tagWorld)) = False"
    by (simp_all add: tagWorld_def exampleWorld_def exampleConfiguration_def)
  from include_tags_shadow_exclude_tags [OF inside refl] p c
  show ?thesis by (auto simp add: truthy_def template_def)
qed

text \<open>
  Claim C6. With diff mode enabled the argument list starts with the tool name and the
  diff subcommand, before the baseline flags, and ends with \<^verbatim>\<open>--from-git-merge-base\<close>
  and the configured merge base, or \<^verbatim>\<open>main\<close> when none (or an empty one) is
  configured. With diff mode disabled the list starts with the tool name alone and
  consists of the baseline flags and the same other flags, with no diff flag.
\<close>

theorem diff_mode_front_and_merge_base:
  assumes "insideWorkspace w documentUri" and "c = getCurrentConfiguration w"
    and "middle =
           (if truthy (credoConfiguration c)
            then [''--config-name'', template (credoConfiguration c)] else []) @
           (if checksWithTag c \<noteq> [] then flagPairs ''--checks-with-tag'' (checksWithTag c)
            else flagPairs ''--checks-without-tag'' (checksWithoutTag c)) @
           (if strictMode c then [''--strict''] else [])"
  shows "\<exists>p logged.
     getCredoConfigFilePath w documentUri None = Some (p, logged) \<and>
     (enabled (diffMode c) \<longrightarrow>
        getCommandArguments w documentUri =
          Some ([DefaultCommand, DiffCommand] @ DefaultCommandArguments @
                (if truthy p then [''--config-file'', template p] else []) @ middle @
                [''--from-git-merge-base'',
                 (case mergeBase (diffMode c) of
                    None \<Rightarrow> ''main''
                  | Some base \<Rightarrow> if base = [] then ''main'' else base)],
                logged)) \<and>
     (\<not> enabled (diffMode c) \<longrightarrow>
        getCommandArguments w documentUri =
          Some ([DefaultCommand] @ DefaultCommandArguments @
                (if truthy p then [''--config-file'', template p] else []) @ middle,
                logged))"
proof -
  from getCredoConfigFilePath_returns [OF assms(1)] obtain p logged where
    p: "getCredoConfigFilePath w documentUri None = Some (p, logged)" by blast
  have mb: "js_or_str (mergeBase (diffMode c)) ''main'' =
      (case mergeBase (diffMode c) of
         None \<Rightarrow> ''main'' | Some base \<Rightarrow> if base = [] then ''main'' else base)"
    by (simp add: js_or_str_def split: option.split)
  from getCommandArguments_shape [OF p assms(2)] p show ?thesis
    unfolding assms(3) mb DefaultCommand_def DiffCommand_def DefaultCommandArguments_def
    by (intro exI [of _ p] exI [of _ logged]) simp
qed

theorem diff_mode_front_and_merge_base_witness:
  "getCommandArguments diffWorld None =
     Some ([''credo'', ''diff'', ''--format'', ''json'', ''--read-from-stdin'',
            ''--config-name'', ''lint'', ''--strict'', ''--from-git-merge-base'', ''main''],
           [notFoundEntry ''.credo.exs'']) \<and>
   getCommandArguments
     (diffWorld\<lparr>getCurrentConfiguration :=
        (getCurrentConfiguration diffWorld)\<lparr>diffMode := \<lparr>enabled = False, mergeBase = None\<rparr>\<rparr>\<rparr>)
     None =
     Some ([''credo'', ''--format'', ''json'', ''--read-from-stdin'',
            ''--config-name'', ''lint'', ''--strict''],
           [notFoundEntry ''.credo.exs''])"
proof -
  let ?off = "diffWorld\<lparr>getCurrentConfiguration :=
        (getCurrentConfiguration diffWorld)\<lparr>diffMode := \<lparr>enabled = False, mergeBase = None\<rparr>\<rparr>\<rparr>"
  have inside: "insideWorkspace diffWorld None" "insideWorkspace ?off None"
    by (simp_all add: insideWorkspace_def)
  have p: "getCredoConfigFilePath diffWorld None None = Some (None, [notFoundEntry ''.credo.exs''])"
    "getCredoConfigFilePath ?off None None = Some (None, [notFoundEntry ''.credo.exs''])"
    by code_simp+
  from diff_mode_front_and_merge_base [OF inside(1) refl refl] p(1)
  have a: "getCommandArguments diffWorld None =
     Some ([''credo'', ''diff'', ''--format'', ''json'', ''--read-from-stdin'',
            ''--config-name'', ''lint'', ''--strict'', ''--from-git-merge-base'', ''main''],
           [notFoundEntry ''.credo.exs''])"
    by (auto simp add: diffWorld_def exampleWorld_def exampleConfiguration_def truthy_def
        template_def flagPairs_def DefaultCommand_def DiffCommand_def
        DefaultCommandArguments_def)
  from diff_mode_front_and_merge_base [OF inside(2) refl refl] p(2)
  have b: "getCommandArguments ?off None =
     Some ([''credo'', ''--format'', ''json'', ''--read-from-stdin'',
            ''--config-name'', ''lint'', ''--strict''],
           [notFoundEntry ''.credo.exs''])"
    by (auto simp add: diffWorld_def exampleWorld_def exampleConfiguration_def truthy_def
        template_def flagPairs_def DefaultCommand_def DiffCommand_def
        DefaultCommandArguments_def)
  from a b show ?thesis by blast
qed

text \<open>
  Claim C7, as the code has it. With strict mode and diff mode disabled the argument
  list is exactly: the tool name, \<^verbatim>\<open>--format\<close>, \<^verbatim>\<open>json\<close>,
  \<^verbatim>\<open>--read-from-stdin\<close>, the config-file pair and the config-name pair where present,
  and the tag pairs where tags are configured.
\<close>

theorem plain_mode_arguments:
  assumes "insideWorkspace w documentUri" and "c = getCurrentConfiguration w"
    and "\<not> strictMode c" and "\<not> enabled (diffMode c)"
  shows "\<exists>p logged.
     getCredoConfigFilePath w documentUri None = Some (p, logged) \<and>
     getCommandArguments w documentUri =
       Some ([''credo'', ''--format'', ''json'', ''--read-from-stdin''] @
             (if truthy p then [''--config-file'', template p] else []) @
             (if truthy (credoConfiguration c)
              then [''--config-name'', template (credoConfiguration c)] else []) @
             (if checksWithTag c \<noteq> [] then flagPairs ''--checks-with-tag'' (checksWithTag c)
              else flagPairs ''--checks-without-tag'' (checksWithoutTag c)),
             logged)"
proof -
  from getCredoConfigFilePath_returns [OF assms(1)] obtain p logged where
    p: "getCredoConfigFilePath w documentUri None = Some (p, logged)" by blast
  from getCommandArguments_shape [OF p assms(2)] assms(3,4) p show ?thesis
    by (intro exI [of _ p] exI [of _ logged]) simp
qed

theorem plain_mode_arguments_witness:
  "getCommandArguments plainWorld (Some exampleDocument) =
     Some ([''credo'', ''--format'', ''json'', ''--read-from-stdin'',
            ''--config-file'', ''.credo.exs'', ''--config-name'', ''lint'',
            ''--checks-without-tag'', ''slow''],
           [multipleEntry [''/proj/.credo.exs'', ''/proj/config/.credo.exs'']])"
proof -
  have inside: "insideWorkspace plainWorld (Some exampleDocument)"
    unfolding plainWorld_def by (rule example_insideWorkspace)
  have p: "getCredoConfigFilePath plainWorld (Some exampleDocument) None =
     Some (Some ''.credo.exs'', [multipleEntry [''/proj/.credo.exs'', ''/proj/config/.credo.exs'']])"
    by code_simp
  have c: "\<not> strictMode (getCurrentConfiguration plainWorld)"
    "\<not> enabled (diffMode (getCurrentConfiguration plainWorld))"
    by (simp_all add: plainWorld_def exampleWorld_def exampleConfiguration_def)
  from plain_mode_arguments [OF inside refl c] p show ?thesis
    by (auto simp add: plainWorld_def exampleWorld_def exampleConfiguration_def truthy_def
        template_def flagPairs_def)
qed

text \<open>
  The claim as stated leaves the tag pairs out: with include tags configured, strict
  mode and diff mode disabled, the list is longer than the tool name, the baseline
  flags and the config-file pair.
\<close>

theorem plain_mode_tags_counterexample:
  "\<not> strictMode (getCurrentConfiguration tagWorld) \<and>
   \<not> enabled (diffMode (getCurrentConfiguration tagWorld)) \<and>
   getCommandArguments tagWorld (Some exampleDocument) =
     Some ([''credo'', ''--format'', ''json'', ''--read-from-stdin'',
            ''--config-file'', ''config/.credo.exs'',
            ''--checks-with-tag'', ''a'', ''--checks-with-tag'', ''b''], []) \<and>
   getCommandArguments tagWorld (Some exampleDocument) \<noteq>
     Some ([''credo'', ''--format'', ''json'', ''--read-from-stdin'',
            ''--config-file'', ''config/.credo.exs''], [])"
  by code_simp

subsection \<open>Absence instead of exceptions\<close>

text \<open>
  Claim C8, as the code has it. The claim holds where the search is bounded. When the
  stop directory is reached from the start directory by taking parents and no directory
  on the way holds the file, \<open>findUp\<close> returns "not found". For a document inside its
  workspace folder \<open>getCredoConfigFilePath\<close> and \<open>getCommandArguments\<close> return; when
  no candidate exists, \<open>getCredoConfigFilePath\<close> returns null and logs the "does not
  exist" warning unless \<open>silent\<close> is set, and \<open>getCommandArguments\<close> then builds the
  list without a \<^verbatim>\<open>--config-file\<close> pair.
\<close>

theorem absence_instead_of_exception:
  assumes "c = getCurrentConfiguration w"
    and "cf = js_or_str (configurationFile c) DefaultConfigFile"
  shows "(\<forall>k. stop = (dirname ^^ k) start \<and>
              (\<forall>j\<le>k. \<not> existsSync w (join [(dirname ^^ j) start, name])) \<longrightarrow>
            findUp w name \<lparr>startAt = start, stopAt = Some stop\<rparr> = Some None) \<and>
         (insideWorkspace w documentUri \<longrightarrow>
            (\<exists>p logged. getCredoConfigFilePath w documentUri opts = Some (p, logged)) \<and>
            (\<exists>args logged. getCommandArguments w documentUri = Some (args, logged))) \<and>
         (insideWorkspace w documentUri \<and> \<not> (isAbsolute cf \<and> existsSync w cf) \<and>
          (\<forall>u pf. documentUri = Some u \<and> getProjectFolder w u = Some pf \<longrightarrow>
                  \<not> existsSync w (join [pf, cf]) \<and>
                  \<not> existsSync w (join [pf, ''config'', cf])) \<longrightarrow>
            getCredoConfigFilePath w documentUri opts =
              Some (None, if opts = Some \<lparr>silent = Some True\<rparr> then [] else [notFoundEntry cf]) \<and>
            getCommandArguments w documentUri =
              Some ((if enabled (diffMode c) then [''credo'', ''diff''] else [''credo'']) @
                    [''--format'', ''json'', ''--read-from-stdin''] @
                    (if truthy (credoConfiguration c)
                     then [''--config-name'', template (credoConfiguration c)] else []) @
                    (if checksWithTag c \<noteq> []
                     then flagPairs ''--checks-with-tag'' (checksWithTag c)
                     else flagPairs ''--checks-without-tag'' (checksWithoutTag c)) @
                    (if strictMode c then [''--strict''] else []) @
                    (if enabled (diffMode c)
                     then [''--from-git-merge-base'', js_or_str (mergeBase (diffMode c)) ''main'']
                     else []),
                    [notFoundEntry cf]))"
proof (intro conjI allI impI)
  fix k
  assume a: "stop = (dirname ^^ k) start \<and>
    (\<forall>j\<le>k. \<not> existsSync w (join [(dirname ^^ j) start, name]))"
  then have "stop = (dirname ^^ k) start" by blast
  from findUp_search [OF this, of w name] obtain j where j: "j \<le> k"
    "if existsSync w (join [(dirname ^^ j) start, name])
     then findUp w name \<lparr>startAt = start, stopAt = Some stop\<rparr> =
            Some (Some ((dirname ^^ j) start))
     else (dirname ^^ j) start = stop \<and>
          findUp w name \<lparr>startAt = start, stopAt = Some stop\<rparr> = Some None"
    by blast
  from a j(1) have "\<not> existsSync w (join [(dirname ^^ j) start, name])" by blast
  with j(2) show "findUp w name \<lparr>startAt = start, stopAt = Some stop\<rparr> = Some None"
    by (simp only: if_False)
next
  assume "insideWorkspace w documentUri"
  then show "\<exists>p logged. getCredoConfigFilePath w documentUri opts = Some (p, logged)"
    by (rule getCredoConfigFilePath_returns)
next
  assume "insideWorkspace w documentUri"
  then obtain p logged where "getCredoConfigFilePath w documentUri None = Some (p, logged)"
    using getCredoConfigFilePath_returns by blast
  from getCommandArguments_shape [OF this refl]
  show "\<exists>args logged. getCommandArguments w documentUri = Some (args, logged)" by blast
next
  assume a: "insideWorkspace w documentUri \<and> \<not> (isAbsolute cf \<and> existsSync w cf) \<and>
          (\<forall>u pf. documentUri = Some u \<and> getProjectFolder w u = Some pf \<longrightarrow>
                  \<not> existsSync w (join [pf, cf]) \<and>
                  \<not> existsSync w (join [pf, ''config'', cf]))"
  have cf: "cf = js_or_str (configurationFile (getCurrentConfiguration w)) DefaultConfigFile"
    unfolding assms ..
  from a show "getCredoConfigFilePath w documentUri opts =
      Some (None, if opts = Some \<lparr>silent = Some True\<rparr> then [] else [notFoundEntry cf])"
    by (intro getCredoConfigFilePath_not_found [OF cf]) blast+
next
  assume a: "insideWorkspace w documentUri \<and> \<not> (isAbsolute cf \<and> existsSync w cf) \<and>
          (\<forall>u pf. documentUri = Some u \<and> getProjectFolder w u = Some pf \<longrightarrow>
                  \<not> existsSync w (join [pf, cf]) \<and>
                  \<not> existsSync w (join [pf, ''config'', cf]))"
  have cf: "cf = js_or_str (configurationFile (getCurrentConfiguration w)) DefaultConfigFile"
    unfolding assms ..
  from a have "getCredoConfigFilePath w documentUri None =
      Some (None, if None = Some \<lparr>silent = Some True\<rparr> then [] else [notFoundEntry cf])"
    by (intro getCredoConfigFilePath_not_found [OF cf]) blast+
  then have "getCredoConfigFilePath w documentUri None = Some (None, [notFoundEntry cf])"
    by simp
  from getCommandArguments_shape [OF this assms(1)]
  show "getCommandArguments w documentUri =
              Some ((if enabled (diffMode c) then [''credo'', ''diff''] else [''credo'']) @
                    [''--format'', ''json'', ''--read-from-stdin''] @
                    (if truthy (credoConfiguration c)
                     then [''--config-name'', template (credoConfiguration c)] else []) @
                    (if checksWithTag c \<noteq> []
                     then flagPairs ''--checks-with-tag'' (checksWithTag c)
                     else flagPairs ''--checks-without-tag'' (checksWithoutTag c)) @
                    (if strictMode c then [''--strict''] else []) @
                    (if enabled (diffMode c)
                     then [''--from-git-merge-base'', js_or_str (mergeBase (diffMode c)) ''main'']
                     else []),
                    [notFoundEntry cf])"
    by (simp only: truthy_def option.case if_False append_Nil)
qed

theorem absence_instead_of_exception_witness:
  "findUp (exampleWorld [''/.credo.exs''] (Some ''/proj'') exampleConfiguration) ''.credo.exs''
     \<lparr>startAt = ''/proj/lib'', stopAt = Some ''/proj''\<rparr> = Some None \<and>
   getCredoConfigFilePath (exampleWorld [''/.credo.exs''] (Some ''/proj'') exampleConfiguration)
     (Some exampleDocument) None = Some (None, [notFoundEntry ''.credo.exs'']) \<and>
   getCommandArguments (exampleWorld [''/.credo.exs''] (Some ''/proj'') exampleConfiguration)
     (Some exampleDocument) =
     Some ([''credo'', ''--format'', ''json'', ''--read-from-stdin''],
           [notFoundEntry ''.credo.exs''])"
proof -
  let ?w = "exampleWorld [''/.credo.exs''] (Some ''/proj'') exampleConfiguration"
  have inside: "insideWorkspace ?w (Some exampleDocument)"
    by (rule example_insideWorkspace)
  have cf: "''.credo.exs'' = js_or_str (configurationFile exampleConfiguration) DefaultConfigFile"
    by (simp add: exampleConfiguration_def js_or_str_def DefaultConfigFile_def)
  have c: "exampleConfiguration = getCurrentConfiguration ?w"
    by (simp add: exampleWorld_def)
  have chain: "''/proj'' = (dirname ^^ Suc 0) ''/proj/lib'' \<and>
      (\<forall>j\<le>Suc 0. \<not> existsSync ?w (join [(dirname ^^ j) ''/proj/lib'', ''.credo.exs'']))"
    by (simp add: le_Suc_eq dirname_def exampleWorld_def join_def normalize_def)
  have pf: "getProjectFolder ?w exampleDocument = Some ''/proj''"
    by code_simp
  have none: "\<not> (isAbsolute ''.credo.exs'' \<and> existsSync ?w ''.credo.exs'') \<and>
      (\<forall>u pf. Some exampleDocument = Some u \<and> getProjectFolder ?w u = Some pf \<longrightarrow>
              \<not> existsSync ?w (join [pf, ''.credo.exs'']) \<and>
              \<not> existsSync ?w (join [pf, ''config'', ''.credo.exs'']))"
    using pf by (auto simp add: isAbsolute_def exampleWorld_def join_def normalize_def)
  note facts = absence_instead_of_exception
    [OF c cf, of "''/proj''" "''/proj/lib''" "''.credo.exs''" "Some exampleDocument" None]
  from facts chain
  have a: "findUp ?w ''.credo.exs'' \<lparr>startAt = ''/proj/lib'', stopAt = Some ''/proj''\<rparr> = Some None"
    by blast
  from facts inside none
  have "getCredoConfigFilePath ?w (Some exampleDocument) None =
      Some (None, if None = Some \<lparr>silent = Some True\<rparr> then [] else [notFoundEntry ''.credo.exs'']) \<and>
    getCommandArguments ?w (Some exampleDocument) =
      Some ((if enabled (diffMode exampleConfiguration) then [''credo'', ''diff''] else [''credo'']) @
            [''--format'', ''json'', ''--read-from-stdin''] @
            (if truthy (credoConfiguration exampleConfiguration)
             then [''--config-name'', template (credoConfiguration exampleConfiguration)] else []) @
            (if checksWithTag exampleConfiguration \<noteq> []
             then flagPairs ''--checks-with-tag'' (checksWithTag exampleConfiguration)
             else flagPairs ''--checks-without-tag'' (checksWithoutTag exampleConfiguration)) @
            (if strictMode exampleConfiguration then [''--strict''] else []) @
            (if enabled (diffMode exampleConfiguration)
             then [''--from-git-merge-base'',
                   js_or_str (mergeBase (diffMode exampleConfiguration)) ''main'']
             else []),
            [notFoundEntry ''.credo.exs''])"
    by blast
  then have b: "getCredoConfigFilePath ?w (Some exampleDocument) None =
      Some (None, [notFoundEntry ''.credo.exs'']) \<and>
    getCommandArguments ?w (Some exampleDocument) =
      Some ([''credo'', ''--format'', ''json'', ''--read-from-stdin''],
            [notFoundEntry ''.credo.exs''])"
    by (simp add: exampleConfiguration_def truthy_def flagPairs_def)
  from a b show ?thesis by blast
qed

lemma chain_misses_slash_folder: "(dirname ^^ k) ''/proj/lib'' \<noteq> ''/proj/''"
proof (cases k)
  case 0
  then show ?thesis by simp
next
  case (Suc k')
  show ?thesis
  proof (cases k')
    case 0
    have "dirname ''/proj/lib'' = ''/proj''" by (simp add: dirname_def)
    with Suc 0 show ?thesis by simp
  next
    case (Suc k'')
    have "dirname (dirname ''/proj/lib'') = ''/''" by (simp add: dirname_def)
    then have "(dirname ^^ Suc (Suc k'')) ''/proj/lib'' = (dirname ^^ k'') ''/''"
      by (simp only: funpow_Suc_right o_apply)
    also have "\<dots> = ''/''"
      by (rule funpow_dirname_fixed) (rule dirname_fixed_points)
    finally show ?thesis using \<open>k = Suc k'\<close> Suc by simp
  qed
qed

text \<open>
  The claim as stated, for every input, fails where the stop directory is not on the
  chain of parents: a workspace folder given as \<^verbatim>\<open>/proj/\<close> is never equal to a
  directory that \<open>dirname\<close> returns, so for the document \<^verbatim>\<open>/proj/lib/a.ex\<close> without any
  \<^verbatim>\<open>.credo.exs\<close> above it the search goes on at \<^verbatim>\<open>/\<close> for ever, and neither
  \<open>getCredoConfigFilePath\<close> nor \<open>getCommandArguments\<close> returns.
\<close>

theorem search_without_end_counterexample:
  "findUp slashWorld ''.credo.exs'' \<lparr>startAt = ''/proj/lib'', stopAt = Some ''/proj/''\<rparr> = None \<and>
   getCredoConfigFilePath slashWorld (Some exampleDocument) None = None \<and>
   getCommandArguments slashWorld (Some exampleDocument) = None"
proof -
  have stuck: "findUp slashWorld ''.credo.exs''
      \<lparr>startAt = ''/proj/lib'', stopAt = Some ''/proj/''\<rparr> = None"
    by (rule findUp_stuck) (simp_all add: slashWorld_def exampleWorld_def chain_misses_slash_folder)
  have dir: "dirname (fsPath exampleDocument) = ''/proj/lib''"
    by (simp add: exampleDocument_def dirname_def)
  have ws: "getWorkspaceFolder slashWorld exampleDocument =
      Some \<lparr>uri = \<lparr>scheme = ''file'', fsPath = ''/proj/''\<rparr>\<rparr>"
    by (simp add: slashWorld_def exampleWorld_def)
  have pf: "getProjectFolder slashWorld exampleDocument = None"
    by (simp add: getProjectFolder_def ws dir stuck)
  have cf: "js_or_str (configurationFile (getCurrentConfiguration slashWorld)) DefaultConfigFile =
      ''.credo.exs''"
    by (simp add: slashWorld_def exampleWorld_def exampleConfiguration_def js_or_str_def
        DefaultConfigFile_def)
  have path: "getCredoConfigFilePath slashWorld (Some exampleDocument) None = None"
    by (simp add: getCredoConfigFilePath_def cf pf isAbsolute_def)
  have "getCommandArguments slashWorld (Some exampleDocument) = None"
    by (simp add: getCommandArguments_def path)
  with stuck path show ?thesis by blast
qed

subsection \<open>The process environment\<close>

text \<open>
  Claim C9, as the code has it. Every variable other than \<^verbatim>\<open>PATH\<close> is as in the process
  environment, whether or not an execute path is configured. When an execute path is
  configured and \<^verbatim>\<open>PATH\<close> is set, the new value of \<^verbatim>\<open>PATH\<close> is the old value, then the
  path-list delimiter, then the execute path: the override is appended, not prepended.
  Without an execute path the environment is returned as it is.
\<close>

theorem environment_appends_execute_path:
  "(\<forall>key. key \<noteq> ''PATH'' \<longrightarrow> getCommandEnvironment w key = processEnv w key) \<and>
   (\<forall>x old. getConfiguration w ''elixir.credo'' ''executePath'' = Some x \<and> x \<noteq> [] \<and>
              processEnv w ''PATH'' = Some old \<longrightarrow>
      getCommandEnvironment w ''PATH'' = Some (old @ delimiter @ x)) \<and>
   (\<not> truthy (getConfiguration w ''elixir.credo'' ''executePath'') \<longrightarrow>
      getCommandEnvironment w = processEnv w)"
  by (simp add: getCommandEnvironment_def Let_def truthy_def template_def)

theorem environment_appends_execute_path_witness:
  "getCommandEnvironment environmentWorld ''PATH'' = Some ''/usr/bin:/opt/elixir/bin'' \<and>
   getCommandEnvironment environmentWorld ''HOME'' = Some ''/root'' \<and>
   getCommandEnvironment (environmentWorld\<lparr>processEnv := [''HOME'' \<mapsto> ''/root'']\<rparr>) ''HOME'' =
     Some ''/root'' \<and>
   getCommandEnvironment (exampleWorld [] None exampleConfiguration) =
     processEnv (exampleWorld [] None exampleConfiguration)"
  using environment_appends_execute_path [of environmentWorld]
    environment_appends_execute_path [of "environmentWorld\<lparr>processEnv := [''HOME'' \<mapsto> ''/root'']\<rparr>"]
    environment_appends_execute_path [of "exampleWorld [] None exampleConfiguration"]
  by (simp add: environmentWorld_def exampleWorld_def truthy_def delimiter_def)

text \<open>
  The claim as stated, that the override comes first, fails: with \<^verbatim>\<open>PATH=/usr/bin\<close>
  and the execute path \<^verbatim>\<open>/opt/elixir/bin\<close> the new value is not
  \<^verbatim>\<open>/opt/elixir/bin:/usr/bin\<close>.
\<close>

theorem environment_prepend_counterexample:
  "getCommandEnvironment environmentWorld ''PATH'' \<noteq>
     Some (''/opt/elixir/bin'' @ delimiter @ ''/usr/bin'')"
  by (simp add: getCommandEnvironment_def environmentWorld_def exampleWorld_def truthy_def
      template_def delimiter_def)

end
